theory Spec2Isabelle
  imports Main "HOL-Library.Word"
begin

section \<open>Native types and constants\<close>

text \<open>
  The OpenCL scalar types of the source: \<open>cl_int\<close> a 32-bit integer read as signed (through \<open>sint\<close>) and \<open>cl_uint\<close> an unsigned
  32-bit integer. A native event handle (\<open>cl_event\<close>) and a foreign object (\<open>void *\<close>)
  are opaque addresses; address \<open>0\<close> is the null pointer.
\<close>

type_synonym cl_int = "32 word"
type_synonym cl_uint = "32 word"
type_synonym cl_event = nat
type_synonym voidp = nat

definition nullptr :: nat where
  "nullptr = 0"

definition CL_SUCCESS :: cl_int where
  "CL_SUCCESS = 0"

definition CL_COMPLETE :: cl_int where
  "CL_COMPLETE = 0"

definition CL_INVALID_VALUE :: cl_int where
  "CL_INVALID_VALUE = - 30"

text \<open>
  The field selectors of \<open>clGetEventInfo\<close> and \<open>clGetEventProfilingInfo\<close>, with the
  values the OpenCL headers give them.
\<close>

definition CL_EVENT_COMMAND_QUEUE :: cl_uint where
  "CL_EVENT_COMMAND_QUEUE = 0x11D0"

definition CL_EVENT_COMMAND_TYPE :: cl_uint where
  "CL_EVENT_COMMAND_TYPE = 0x11D1"

definition CL_EVENT_REFERENCE_COUNT :: cl_uint where
  "CL_EVENT_REFERENCE_COUNT = 0x11D2"

definition CL_EVENT_COMMAND_EXECUTION_STATUS :: cl_uint where
  "CL_EVENT_COMMAND_EXECUTION_STATUS = 0x11D3"

definition CL_EVENT_CONTEXT :: cl_uint where
  "CL_EVENT_CONTEXT = 0x11D4"

definition CL_PROFILING_COMMAND_QUEUED :: cl_uint where
  "CL_PROFILING_COMMAND_QUEUED = 0x1280"

definition CL_PROFILING_COMMAND_SUBMIT :: cl_uint where
  "CL_PROFILING_COMMAND_SUBMIT = 0x1281"

definition CL_PROFILING_COMMAND_START :: cl_uint where
  "CL_PROFILING_COMMAND_START = 0x1282"

definition CL_PROFILING_COMMAND_END :: cl_uint where
  "CL_PROFILING_COMMAND_END = 0x1283"

text \<open>
  Build parameters that the file reads but does not define: the macro
  \<open>PYOPENCL_CL_VERSION\<close> and the flag \<open>support_cb\<close> of the event class.
\<close>

record config =
  PYOPENCL_CL_VERSION :: nat
  support_cb :: bool

section \<open>Errors, closures and the observable trace\<close>

text \<open>
  \<open>clerror(routine, code)\<close>: the one exception class the file throws and catches. The
  specification calls it \<open>NativeApiError\<close> when the code is a status the driver returned
  and \<open>InvalidArgument\<close> when the code is \<open>CL_INVALID_VALUE\<close> raised for an
  unrecognised field.
\<close>

datatype clerror = Clerror (routine: string) (code: cl_int)

text \<open>
  The three lambda expressions of the file, each with the values it captures:
  \<^item> \<open>FinishDelete p\<close> is \<^verbatim>\<open>[p] (cl_int) { p->call_finish(); delete p; }\<close>
    of \<open>release_private\<close>;
  \<^item> \<open>MonitorWait evt p\<close> is the body of the detached thread of \<open>release_private\<close>,
    started with the handle value \<open>data()\<close> and the payload pointer;
  \<^item> \<open>PyCallback pyobj\<close> is
    \<^verbatim>\<open>[=] (cl_int status) { py::call(pyobj, status); py::deref(pyobj); }\<close>
    of \<open>event__set_callback\<close>.
\<close>

datatype closure =
    FinishDelete nat
  | MonitorWait cl_event nat
  | PyCallback voidp

datatype cl_call =
    ClRetainEvent cl_event
  | ClReleaseEvent cl_event
  | ClWaitForEvents "cl_event list"
  | ClSetEventCallback cl_event cl_int closure
  | ClGetEventInfo cl_event cl_uint
  | ClGetEventProfilingInfo cl_event cl_uint
  | ClEnqueueWaitForEvents nat "cl_event list"

datatype cerr_item = Text string | What clerror | Code cl_int | Endl

text \<open>
  Everything the code does to its surroundings is appended to a trace: a driver call with
  the status it returned, a change of a foreign reference count, a call of a foreign
  callable, an entry into the virtual \<open>finish()\<close> of the payload at an address, a
  \<open>delete\<close> of a payload, the start of a detached thread, a line on \<open>std::cerr\<close>.
\<close>

datatype action =
    Cl cl_call cl_int
  | PyRef voidp
  | PyDeref voidp
  | PyCall voidp cl_int
  | Finish nat
  | Delete nat
  | Spawn closure
  | Cerr "cerr_item list"

section \<open>Payloads and the world they live in\<close>

text \<open>
  \<open>class event_private\<close> has the one member \<open>m_finished\<close>;
  \<open>class nanny_event_private : public event_private\<close> adds \<open>m_ward\<close>. A payload is
  heap-allocated and reached through pointers held by an event handle and by closures, so
  payloads live in an explicit heap.
\<close>

datatype event_private =
    EventPrivate (m_finished: bool)
  | NannyEventPrivate (m_finished: bool) (m_ward: voidp)

record world =
  heap :: "nat \<rightharpoonup> event_private"
  brk :: nat
  py_refcnt :: "voidp \<Rightarrow> int"
  registered :: "(cl_event \<times> cl_int \<times> closure) list"
  threads :: "closure list"
  trace :: "action list"
  ub :: bool

text \<open>
  The driver is outside the program: it answers every call with a status, and an info
  query with a value, both of which may depend on what happened before.
\<close>

record driver =
  status_of :: "action list \<Rightarrow> cl_call \<Rightarrow> cl_int"
  value_of :: "action list \<Rightarrow> cl_call \<Rightarrow> 64 word"

record event =
  data :: cl_event
  m_p :: nat

section \<open>Helpers the file uses from other headers\<close>

text \<open>
  Modelled from the spec: \<open>pyopencl_call_guarded\<close> (a macro of a header that is not
  among the sources). It makes the native call and, when the driver answers with a
  status other than success, throws the error "carrying the code and the failing
  operation's name".
\<close>

definition pyopencl_call_guarded ::
  "driver \<Rightarrow> string \<Rightarrow> cl_call \<Rightarrow> world \<Rightarrow> (clerror + unit) \<times> world" where
  "pyopencl_call_guarded drv name c s =
     (let st = status_of drv (trace s) c;
          s1 = s\<lparr>trace := trace s @ [Cl c st]\<rparr>
      in if st = CL_SUCCESS then (Inr (), s1) else (Inl (Clerror name st), s1))"

text \<open>
  Modelled from the spec: \<open>pyopencl_call_guarded_cleanup\<close> (same header). A failed
  call at cleanup time is swallowed and is "observable only via diagnostic output".
\<close>

definition pyopencl_call_guarded_cleanup ::
  "driver \<Rightarrow> string \<Rightarrow> cl_call \<Rightarrow> world \<Rightarrow> world" where
  "pyopencl_call_guarded_cleanup drv name c s =
     (let st = status_of drv (trace s) c;
          s1 = s\<lparr>trace := trace s @ [Cl c st]\<rparr>
      in if st = CL_SUCCESS then s1
         else s1\<lparr>trace := trace s1 @ [Cerr [Text name, Code st, Endl]]\<rparr>)"

text \<open>
  Modelled from the spec: \<open>py::ref\<close>, \<open>py::deref\<close> and \<open>py::call\<close> (helpers of
  a header that is not among the sources): "increment/decrement an opaque foreign object's
  reference count", and the call of a foreign callable with a status.
\<close>

definition py_ref :: "voidp \<Rightarrow> world \<Rightarrow> voidp \<times> world" where
  "py_ref obj s =
     (obj, s\<lparr>py_refcnt := (py_refcnt s)(obj := py_refcnt s obj + 1),
               trace := trace s @ [PyRef obj]\<rparr>)"

definition py_deref :: "voidp \<Rightarrow> world \<Rightarrow> world" where
  "py_deref obj s =
     s\<lparr>py_refcnt := (py_refcnt s)(obj := py_refcnt s obj - 1),
       trace := trace s @ [PyDeref obj]\<rparr>"

definition py_call :: "voidp \<Rightarrow> cl_int \<Rightarrow> world \<Rightarrow> world" where
  "py_call obj status s = s\<lparr>trace := trace s @ [PyCall obj status]\<rparr>"

text \<open>
  Modelled from the spec: \<open>c_handle_error\<close> (the error translation glue): the wrapped
  body's exception becomes the returned \<open>error *\<close>, which is null on success.
\<close>

definition c_handle_error :: "clerror + 'a \<Rightarrow> clerror option" where
  "c_handle_error r = (case r of Inl e \<Rightarrow> Some e | Inr _ \<Rightarrow> None)"

text \<open>
  Modelled from the spec: \<open>buf_from_class<event>\<close>: the buffer of the native handles
  of a sequence of event objects.
\<close>

definition buf_from_class :: "event list \<Rightarrow> cl_event list" where
  "buf_from_class wait_for = map data wait_for"

section \<open>The finalize payload: \<open>class event_private\<close>\<close>

text \<open>\<open>m_finished.exchange(true)\<close>: the old value, and the object with the flag set.\<close>

fun set_m_finished :: "bool \<Rightarrow> event_private \<Rightarrow> event_private" where
  "set_m_finished b (EventPrivate _) = EventPrivate b"
| "set_m_finished b (NannyEventPrivate _ w) = NannyEventPrivate b w"

definition exchange :: "bool \<Rightarrow> event_private \<Rightarrow> bool \<times> event_private" where
  "exchange b obj = (m_finished obj, set_m_finished b obj)"

text \<open>
  \<open>event_private::finish()\<close> has the empty body; the model records that it was entered.
\<close>

definition event_private_finish :: "nat \<Rightarrow> world \<Rightarrow> world" where
  "event_private_finish this s = s\<lparr>trace := trace s @ [Finish this]\<rparr>"

text \<open>
  The virtual call \<open>finish()\<close>, dispatched on the dynamic class of the payload.
  \<open>nanny_event_private\<close> declares no member of that name (its member is called
  \<open>finished\<close>), so it inherits the body of the base class.
\<close>

fun finish :: "event_private \<Rightarrow> nat \<Rightarrow> world \<Rightarrow> world" where
  "finish (EventPrivate _) this s = event_private_finish this s"
| "finish (NannyEventPrivate _ _) this s = event_private_finish this s"

text \<open>
  \<open>call_finish()\<close> and \<open>is_finished()\<close> on the payload at address \<open>this\<close>. Going
  through a pointer to no live payload is undefined behaviour, which the world records.
\<close>

definition call_finish :: "nat \<Rightarrow> world \<Rightarrow> world" where
  "call_finish this s =
     (case heap s this of
        None \<Rightarrow> s\<lparr>ub := True\<rparr>
      | Some obj \<Rightarrow>
          (let (old, obj1) = exchange True obj;
               s1 = s\<lparr>heap := (heap s)(this \<mapsto> obj1)\<rparr>
           in if old then s1 else finish obj1 this s1))"

definition is_finished :: "nat \<Rightarrow> world \<Rightarrow> bool option" where
  "is_finished this s = map_option m_finished (heap s this)"

text \<open>
  For invocations that overlap in time, one invocation of \<open>call_finish()\<close> is two
  atomic steps: the exchange on the flag and, for the caller that got \<open>false\<close> back,
  the call of \<open>finish()\<close>. A caller is at its entry, has won the exchange, or has
  returned. A schedule names, step by step, the caller that moves next.
\<close>

datatype pc = Entry | Won | Returned

fun call_finish_step :: "nat \<Rightarrow> pc \<Rightarrow> world \<Rightarrow> pc \<times> world" where
  "call_finish_step this Entry s =
     (case heap s this of
        None \<Rightarrow> (Returned, s\<lparr>ub := True\<rparr>)
      | Some obj \<Rightarrow>
          (let (old, obj1) = exchange True obj;
               s1 = s\<lparr>heap := (heap s)(this \<mapsto> obj1)\<rparr>
           in (if old then Returned else Won, s1)))"
| "call_finish_step this Won s =
     (case heap s this of
        None \<Rightarrow> (Returned, s\<lparr>ub := True\<rparr>)
      | Some obj \<Rightarrow> (Returned, finish obj this s))"
| "call_finish_step this Returned s = (Returned, s)"

fun interleave :: "nat \<Rightarrow> nat list \<Rightarrow> pc list \<times> world \<Rightarrow> pc list \<times> world" where
  "interleave this [] c = c"
| "interleave this (i # sched) (pcs, s) =
     (if i < length pcs then
        (let (pc1, s1) = call_finish_step this (pcs ! i) s
         in interleave this sched (pcs[i := pc1], s1))
      else interleave this sched (pcs, s))"

text \<open>
  What holds between the steps of overlapping invocations on the payload at \<open>p\<close>:
  while the flag is clear every caller is at its entry and \<open>finish()\<close> has not been
  entered since the start; once it is set, exactly one caller either has won and not yet
  called \<open>finish()\<close>, or has entered it.
\<close>

definition guard_inv :: "nat \<Rightarrow> nat \<Rightarrow> bool \<Rightarrow> pc list \<times> world \<Rightarrow> bool" where
  "guard_inv p c0 u0 c =
     (case c of (pcs, s) \<Rightarrow>
        (case heap s p of
           None \<Rightarrow> False
         | Some obj \<Rightarrow>
             ub s = u0
             \<and> (if m_finished obj
                 then count_list pcs Won + count_list (trace s) (Finish p) = c0 + 1
                 else set pcs \<subseteq> {Entry} \<and> count_list (trace s) (Finish p) = c0)))"

text \<open>
  \<open>delete p\<close>: nothing for the null pointer; both destructors have empty bodies, so the
  payload is just freed. Deleting what is not live is undefined behaviour.
\<close>

definition delete_payload :: "nat \<Rightarrow> world \<Rightarrow> world" where
  "delete_payload p s =
     (if p = nullptr then s
      else s\<lparr>heap := (heap s)(p := None), trace := trace s @ [Delete p],
             ub := (ub s \<or> heap s p = None)\<rparr>)"

section \<open>The event handle: \<open>class event\<close>\<close>

text \<open>
  \<open>event::event(cl_event event, bool retain, event_private *p)\<close>. The exception of a
  failed retain passes through the handler, which deletes the payload and rethrows.
\<close>

definition event_new ::
  "driver \<Rightarrow> cl_event \<Rightarrow> bool \<Rightarrow> nat \<Rightarrow> world \<Rightarrow> (clerror + event) \<times> world" where
  "event_new drv evt retain p s =
     (let this = \<lparr>data = evt, m_p = p\<rparr>
      in if retain then
           (case pyopencl_call_guarded drv ''clRetainEvent'' (ClRetainEvent (data this)) s of
              (Inl e, s1) \<Rightarrow> (Inl e, delete_payload (m_p this) s1)
            | (Inr _, s1) \<Rightarrow> (Inr this, s1))
         else (Inr this, s))"

text \<open>
  Modelled from the spec: \<open>event::set_callback\<close> (a member template of the class
  header, which is not among the sources): "register a native completion callback for a
  given trigger status", a guarded native call; the driver keeps the callback when the
  registration succeeds.
\<close>

definition set_callback ::
  "driver \<Rightarrow> event \<Rightarrow> cl_int \<Rightarrow> closure \<Rightarrow> world \<Rightarrow> (clerror + unit) \<times> world" where
  "set_callback drv this ty func s =
     (case pyopencl_call_guarded drv ''clSetEventCallback''
             (ClSetEventCallback (data this) ty func) s of
        (Inl e, s1) \<Rightarrow> (Inl e, s1)
      | (Inr _, s1) \<Rightarrow>
          (Inr (), s1\<lparr>registered := registered s1 @ [(data this, ty, func)]\<rparr>))"

text \<open>\<open>std::thread t(body, args...); t.detach();\<close>\<close>

definition spawn_detached :: "closure \<Rightarrow> world \<Rightarrow> world" where
  "spawn_detached body s = s\<lparr>threads := threads s @ [body], trace := trace s @ [Spawn body]\<rparr>"

definition cleanup_warning :: string where
  "cleanup_warning = ''PyOpenCL WARNING: a clean-up operation failed (dead context maybe?)''"

text \<open>\<open>event::release_private() noexcept\<close>\<close>

definition release_private :: "config \<Rightarrow> driver \<Rightarrow> event \<Rightarrow> world \<Rightarrow> world" where
  "release_private cfg drv this s =
     (if m_p this = nullptr then s
      else
        (case is_finished (m_p this) s of
           None \<Rightarrow> s\<lparr>ub := True\<rparr>
         | Some True \<Rightarrow> delete_payload (m_p this) s
         | Some False \<Rightarrow>
             if 0x1010 \<le> PYOPENCL_CL_VERSION cfg \<and> support_cb cfg then
               (let p = m_p this
                in case set_callback drv this CL_COMPLETE (FinishDelete p) s of
                     (Inr _, s1) \<Rightarrow> s1
                   | (Inl e, s1) \<Rightarrow>
                       s1\<lparr>trace := trace s1 @
                          [Cerr [Text cleanup_warning, Endl, What e,
                                 Text '' failed with code '', Code (code e), Endl]]\<rparr>)
             else spawn_detached (MonitorWait (data this) (m_p this)) s))"

text \<open>\<open>event::~event()\<close>\<close>

definition event_dtor :: "config \<Rightarrow> driver \<Rightarrow> event \<Rightarrow> world \<Rightarrow> world" where
  "event_dtor cfg drv this s =
     pyopencl_call_guarded_cleanup drv ''clReleaseEvent'' (ClReleaseEvent (data this))
       (release_private cfg drv this s)"

text \<open>
  The bodies of the closures, run when the driver invokes a registered callback with a
  status, or when a detached thread is scheduled.
\<close>

fun run_closure :: "driver \<Rightarrow> closure \<Rightarrow> cl_int \<Rightarrow> world \<Rightarrow> world" where
  "run_closure drv (FinishDelete p) status s = delete_payload p (call_finish p s)"
| "run_closure drv (MonitorWait evt p) status s =
     delete_payload p (call_finish p
       (pyopencl_call_guarded_cleanup drv ''clWaitForEvents'' (ClWaitForEvents [evt]) s))"
| "run_closure drv (PyCallback pyobj) status s = py_deref pyobj (py_call pyobj status s)"

text \<open>The payload pointer a closure has captured (null for one that captured none).\<close>

fun payload_of :: "closure \<Rightarrow> nat" where
  "payload_of (FinishDelete p) = p"
| "payload_of (MonitorWait evt p) = p"
| "payload_of (PyCallback pyobj) = nullptr"

text \<open>
  The surroundings of the program, not code of it: completion as the closures see it.
  Every callback the driver holds is invoked once with its trigger status and every
  detached thread runs once, callbacks first, each kind in the order it was made.
\<close>

definition pending :: "world \<Rightarrow> (closure \<times> cl_int) list" where
  "pending s = map (\<lambda>(evt, ty, func). (func, ty)) (registered s)
               @ map (\<lambda>body. (body, CL_COMPLETE)) (threads s)"

definition drain :: "driver \<Rightarrow> world \<Rightarrow> world" where
  "drain drv s =
     fold (\<lambda>(func, status). run_closure drv func status) (pending s)
       (s\<lparr>registered := [], threads := []\<rparr>)"

text \<open>
  Modelled from the spec: \<open>pyopencl_get_opaque_info\<close> and \<open>pyopencl_get_int_info\<close>
  (macros of a header that is not among the sources): "query an integer/opaque info field
  by enum", a guarded native call whose value is wrapped with the requested type.
\<close>

datatype info_type =
    Opaque_command_queue
  | Opaque_context
  | Int_cl_command_type
  | Int_cl_int
  | Int_cl_uint
  | Int_cl_ulong

datatype generic_info = GenericInfo info_type "64 word"

definition pyopencl_get_info ::
  "driver \<Rightarrow> info_type \<Rightarrow> string \<Rightarrow> cl_call \<Rightarrow> world \<Rightarrow> (clerror + generic_info) \<times> world" where
  "pyopencl_get_info drv ty name c s =
     (case pyopencl_call_guarded drv name c s of
        (Inl e, s1) \<Rightarrow> (Inl e, s1)
      | (Inr _, s1) \<Rightarrow> (Inr (GenericInfo ty (value_of drv (trace s) c)), s1))"

text \<open>\<open>event::get_info(cl_uint param_name) const\<close>: the switch, case by case.\<close>

definition get_info ::
  "config \<Rightarrow> driver \<Rightarrow> event \<Rightarrow> cl_uint \<Rightarrow> world \<Rightarrow> (clerror + generic_info) \<times> world" where
  "get_info cfg drv this param_name s =
     (if param_name = CL_EVENT_COMMAND_QUEUE then
        pyopencl_get_info drv Opaque_command_queue ''clGetEventInfo''
          (ClGetEventInfo (data this) param_name) s
      else if param_name = CL_EVENT_COMMAND_TYPE then
        pyopencl_get_info drv Int_cl_command_type ''clGetEventInfo''
          (ClGetEventInfo (data this) param_name) s
      else if param_name = CL_EVENT_COMMAND_EXECUTION_STATUS then
        pyopencl_get_info drv Int_cl_int ''clGetEventInfo''
          (ClGetEventInfo (data this) param_name) s
      else if param_name = CL_EVENT_REFERENCE_COUNT then
        pyopencl_get_info drv Int_cl_uint ''clGetEventInfo''
          (ClGetEventInfo (data this) param_name) s
      else if 0x1010 \<le> PYOPENCL_CL_VERSION cfg \<and> param_name = CL_EVENT_CONTEXT then
        pyopencl_get_info drv Opaque_context ''clGetEventInfo''
          (ClGetEventInfo (data this) param_name) s
      else (Inl (Clerror ''Event.get_info'' CL_INVALID_VALUE), s))"

text \<open>\<open>event::get_profiling_info(cl_profiling_info param) const\<close>\<close>

definition get_profiling_info ::
  "driver \<Rightarrow> event \<Rightarrow> cl_uint \<Rightarrow> world \<Rightarrow> (clerror + generic_info) \<times> world" where
  "get_profiling_info drv this param s =
     (if param = CL_PROFILING_COMMAND_QUEUED \<or> param = CL_PROFILING_COMMAND_SUBMIT
         \<or> param = CL_PROFILING_COMMAND_START \<or> param = CL_PROFILING_COMMAND_END then
        pyopencl_get_info drv Int_cl_ulong ''clGetEventProfilingInfo''
          (ClGetEventProfilingInfo (data this) param) s
      else (Inl (Clerror ''Event.get_profiling_info'' CL_INVALID_VALUE), s))"

text \<open>\<open>event::wait() const\<close>\<close>

definition wait :: "driver \<Rightarrow> event \<Rightarrow> world \<Rightarrow> (clerror + unit) \<times> world" where
  "wait drv this s =
     (case pyopencl_call_guarded drv ''clWaitForEvents'' (ClWaitForEvents [data this]) s of
        (Inl e, s1) \<Rightarrow> (Inl e, s1)
      | (Inr _, s1) \<Rightarrow>
          (Inr (), if m_p this \<noteq> nullptr then call_finish (m_p this) s1 else s1))"

section \<open>The nanny event: \<open>class nanny_event_private\<close> and \<open>class nanny_event\<close>\<close>

text \<open>
  \<open>nanny_event_private::finished()\<close>, a private, non-virtual member that no code of the
  file calls.
\<close>

definition finished :: "nat \<Rightarrow> world \<Rightarrow> world" where
  "finished this s =
     (case heap s this of
        Some (NannyEventPrivate f ward) \<Rightarrow>
          py_deref ward (s\<lparr>heap := (heap s)(this \<mapsto> NannyEventPrivate f nullptr)\<rparr>)
      | _ \<Rightarrow> s\<lparr>ub := True\<rparr>)"

text \<open>
  \<open>new nanny_event_private(ward)\<close>. No constructor of either class gives
  \<open>m_finished\<close> a value, so the flag of a new payload is whatever the language leaves
  in a default-initialised \<open>std::atomic_bool\<close>: the parameter \<open>flag0\<close>. The address is
  the next one of a bump allocator, never null.
\<close>

definition nanny_event_private_new :: "bool \<Rightarrow> voidp \<Rightarrow> world \<Rightarrow> nat \<times> world" where
  "nanny_event_private_new flag0 ward s =
     (let this = Suc (brk s);
          s1 = s\<lparr>heap := (heap s)(this \<mapsto> NannyEventPrivate flag0 nullptr), brk := this\<rparr>;
          (w, s2) = py_ref ward s1
      in (this, s2\<lparr>heap := (heap s2)(this \<mapsto> NannyEventPrivate flag0 w)\<rparr>))"

text \<open>
  \<open>nanny_event_private::get_ward()\<close> through a payload pointer that the caller casts to
  the derived class: \<open>None\<close> where the cast or the read is undefined.
\<close>

definition nanny_event_private_get_ward :: "nat \<Rightarrow> world \<Rightarrow> voidp option" where
  "nanny_event_private_get_ward this s =
     (case heap s this of
        Some (NannyEventPrivate f ward) \<Rightarrow> Some ward
      | _ \<Rightarrow> None)"

text \<open>\<open>nanny_event::nanny_event(cl_event evt, bool retain, void *ward)\<close>\<close>

definition nanny_event_new ::
  "driver \<Rightarrow> bool \<Rightarrow> cl_event \<Rightarrow> bool \<Rightarrow> voidp \<Rightarrow> world \<Rightarrow> (clerror + event) \<times> world" where
  "nanny_event_new drv flag0 evt retain ward s =
     (if ward \<noteq> nullptr then
        (let (p, s1) = nanny_event_private_new flag0 ward s
         in event_new drv evt retain p s1)
      else event_new drv evt retain nullptr s)"

text \<open>\<open>nanny_event::get_ward() const noexcept\<close>\<close>

definition get_ward :: "event \<Rightarrow> world \<Rightarrow> voidp option" where
  "get_ward this s =
     (if m_p this \<noteq> nullptr then nanny_event_private_get_ward (m_p this) s
      else Some nullptr)"

section \<open>The C wrappers\<close>

text \<open>
  \<open>event__get_profiling_info\<close>: \<open>out\<close> is the value behind the output pointer before
  the call; the result holds the returned error and the value behind it afterwards.
\<close>

definition event__get_profiling_info ::
  "driver \<Rightarrow> event \<Rightarrow> cl_uint \<Rightarrow> generic_info \<Rightarrow> world
     \<Rightarrow> (clerror option \<times> generic_info) \<times> world" where
  "event__get_profiling_info drv evt param out s =
     (case get_profiling_info drv evt param s of
        (Inl e, s1) \<Rightarrow> ((c_handle_error (Inl e :: clerror + unit), out), s1)
      | (Inr v, s1) \<Rightarrow> ((c_handle_error (Inr () :: clerror + unit), v), s1))"

definition event__wait :: "driver \<Rightarrow> event \<Rightarrow> world \<Rightarrow> clerror option \<times> world" where
  "event__wait drv evt s = (case wait drv evt s of (r, s1) \<Rightarrow> (c_handle_error r, s1))"

text \<open>
  \<open>event__set_callback\<close> (compiled when \<open>PYOPENCL_CL_VERSION >= 0x1010\<close>). The
  handler \<open>catch (...)\<close> does not rethrow, so the wrapped body ends normally on either
  path.
\<close>

definition event__set_callback ::
  "driver \<Rightarrow> event \<Rightarrow> cl_int \<Rightarrow> voidp \<Rightarrow> world \<Rightarrow> clerror option \<times> world" where
  "event__set_callback drv evt ty pyobj0 s =
     (let (pyobj, s1) = py_ref pyobj0 s
      in case set_callback drv evt ty (PyCallback pyobj) s1 of
           (Inr _, s2) \<Rightarrow> (c_handle_error (Inr () :: clerror + unit), s2)
         | (Inl e, s2) \<Rightarrow> (c_handle_error (Inr () :: clerror + unit), py_deref pyobj s2))"

definition nanny_event__get_ward :: "event \<Rightarrow> world \<Rightarrow> voidp option" where
  "nanny_event__get_ward evt s = get_ward evt s"

text \<open>
  \<open>wait_for_events\<close> and \<open>enqueue_wait_for_events\<close>: the array of \<open>num_wait_for\<close>
  objects is the list \<open>wait_for\<close>.
\<close>

definition wait_for_events :: "driver \<Rightarrow> event list \<Rightarrow> world \<Rightarrow> clerror option \<times> world" where
  "wait_for_events drv wait_for s =
     (case pyopencl_call_guarded drv ''clWaitForEvents''
             (ClWaitForEvents (buf_from_class wait_for)) s of
        (r, s1) \<Rightarrow> (c_handle_error r, s1))"

definition enqueue_wait_for_events ::
  "driver \<Rightarrow> nat \<Rightarrow> event list \<Rightarrow> world \<Rightarrow> clerror option \<times> world" where
  "enqueue_wait_for_events drv queue wait_for s =
     (case pyopencl_call_guarded drv ''clEnqueueWaitForEvents''
             (ClEnqueueWaitForEvents queue (buf_from_class wait_for)) s of
        (r, s1) \<Rightarrow> (c_handle_error r, s1))"

section \<open>Concrete worlds and drivers\<close>

text \<open>
  An empty world in which every foreign object has one reference, the driver that answers
  every call with success, and the driver that answers every call with one given status.
\<close>

definition world0 :: world where
  "world0 = \<lparr>heap = Map.empty, brk = 0, py_refcnt = (\<lambda>_. 1), registered = [], threads = [],
              trace = [], ub = False\<rparr>"

definition drv_const :: "cl_int \<Rightarrow> driver" where
  "drv_const st = \<lparr>status_of = (\<lambda>_ _. st), value_of = (\<lambda>_ _. 0)\<rparr>"

definition drv_ok :: driver where
  "drv_ok = drv_const CL_SUCCESS"

text \<open>A world holding one plain payload, not yet finished, at address 1.\<close>

definition world_plain :: world where
  "world_plain = world0\<lparr>heap := [1 \<mapsto> EventPrivate False], brk := 1\<rparr>"

definition cfg_cb :: config where
  "cfg_cb = \<lparr>PYOPENCL_CL_VERSION = 0x1010, support_cb = True\<rparr>"


text \<open>
  A nanny event made in the empty world for the native event 7 and the ward 5, without
  retain and with the completion flag of the new payload clear; the world after a
  \<open>wait()\<close> on it; and the world after the handle is destroyed instead, without a
  wait, and the closures left behind have run.
\<close>

definition nanny_handle :: event where
  "nanny_handle = \<lparr>data = 7, m_p = 1\<rparr>"

definition nanny_made :: world where
  "nanny_made = snd (nanny_event_new drv_ok False 7 False 5 world0)"

definition nanny_waited :: world where
  "nanny_waited = snd (wait drv_ok nanny_handle nanny_made)"

definition nanny_dropped :: world where
  "nanny_dropped = drain drv_ok (event_dtor cfg_cb drv_ok nanny_handle nanny_made)"

text \<open>
  The same nanny event when the flag of its new payload comes out set; and the world of
  \<open>nanny_made\<close> at the moment when a first caller of \<open>wait()\<close> has made its
  native wait and the exchange of its \<open>call_finish()\<close>, and nothing more.
\<close>

definition nanny_born_finished :: world where
  "nanny_born_finished = snd (nanny_event_new drv_ok True 7 False 5 world0)"

definition wait_overlap :: world where
  "wait_overlap =
     snd (call_finish_step (m_p nanny_handle) Entry
            (snd (pyopencl_call_guarded drv_ok ''clWaitForEvents''
                    (ClWaitForEvents [data nanny_handle]) nanny_made)))"

section \<open>The finish-once guard\<close>

lemma CL_INVALID_VALUE_not_success: "CL_INVALID_VALUE \<noteq> CL_SUCCESS"
  by (simp add: CL_INVALID_VALUE_def CL_SUCCESS_def)

lemma nanny_made_eq:
  "nanny_event_new drv_ok False 7 False 5 world0
     = (Inr nanny_handle,
        world0\<lparr>heap := [1 \<mapsto> NannyEventPrivate False 5], brk := 1,
               py_refcnt := (\<lambda>_. 1)(5 := 2), trace := [PyRef 5]\<rparr>)"
  by (simp add: nanny_event_new_def nanny_event_private_new_def py_ref_def event_new_def
      nullptr_def world0_def nanny_handle_def)

lemma m_finished_set_m_finished [simp]: "m_finished (set_m_finished b obj) = b"
  by (cases obj) simp_all

lemma call_finish_unfinished:
  "heap s p = Some obj \<Longrightarrow> \<not> m_finished obj \<Longrightarrow>
   call_finish p s =
     s\<lparr>heap := (heap s)(p \<mapsto> set_m_finished True obj), trace := trace s @ [Finish p]\<rparr>"
  by (cases obj) (simp_all add: call_finish_def exchange_def event_private_finish_def)

lemma call_finish_finished:
  "heap s p = Some obj \<Longrightarrow> m_finished obj \<Longrightarrow> call_finish p s = s"
  by (cases obj) (simp_all add: call_finish_def exchange_def map_upd_triv)

lemma call_finish_twice:
  "heap s p = Some obj \<Longrightarrow> call_finish p (call_finish p s) = call_finish p s"
  by (cases "m_finished obj") (simp_all add: call_finish_finished call_finish_unfinished)

lemma call_finish_funpow:
  "heap s p = Some obj \<Longrightarrow> 0 < n \<Longrightarrow> (call_finish p ^^ n) s = call_finish p s"
proof (induction n)
  case 0
  then show ?case by simp
next
  case (Suc n)
  show ?case
  proof (cases n)
    case 0
    then show ?thesis by simp
  next
    case (Suc m)
    with Suc.IH Suc.prems have "(call_finish p ^^ n) s = call_finish p s"
      by simp
    then show ?thesis
      using Suc.prems by (simp add: call_finish_twice)
  qed
qed

text \<open>
  The guard on a live payload whose completion flag is clear, \<open>n > 0\<close> invocations of
  \<open>call_finish()\<close> one after the other: the first one sets the flag and enters
  \<open>finish()\<close>; every later one leaves the world as the first left it, so \<open>finish()\<close>
  is entered exactly once over the whole sequence; no invocation fails (the function
  returns a world and reports no undefined behaviour); and \<open>is_finished()\<close> is true
  after the invocations.
\<close>

theorem call_finish_exactly_once:
  assumes "heap s p = Some obj" and "\<not> m_finished obj" and "0 < n"
  shows "call_finish p s =
           s\<lparr>heap := (heap s)(p \<mapsto> set_m_finished True obj), trace := trace s @ [Finish p]\<rparr>
       \<and> (call_finish p ^^ n) s = call_finish p s
       \<and> call_finish p ((call_finish p ^^ n) s) = (call_finish p ^^ n) s
       \<and> count_list (trace ((call_finish p ^^ n) s)) (Finish p)
           = count_list (trace s) (Finish p) + 1
       \<and> ub ((call_finish p ^^ n) s) = ub s
       \<and> is_finished p ((call_finish p ^^ n) s) = Some True"
  using assms
  by (simp add: call_finish_funpow call_finish_twice)
     (simp add: call_finish_unfinished is_finished_def)

theorem call_finish_exactly_once_witness:
  "heap world_plain 1 = Some (EventPrivate False)
   \<and> \<not> m_finished (EventPrivate False) \<and> (0::nat) < 3
   \<and> count_list (trace ((call_finish 1 ^^ 3) world_plain)) (Finish 1) = 1
   \<and> (call_finish 1 ^^ 3) world_plain = call_finish 1 world_plain
   \<and> is_finished 1 ((call_finish 1 ^^ 3) world_plain) = Some True"
  using call_finish_exactly_once [of world_plain 1 "EventPrivate False" 3]
  by (simp add: world_plain_def world0_def is_finished_def)

subsection \<open>A payload whose flag starts set\<close>

lemma call_finish_funpow_finished:
  "heap s p = Some obj \<Longrightarrow> m_finished obj \<Longrightarrow> (call_finish p ^^ n) s = s"
  by (induction n) (simp_all add: call_finish_finished)

lemma nanny_born_finished_eq:
  "nanny_event_new drv_ok True 7 False 5 world0
     = (Inr nanny_handle,
        world0\<lparr>heap := [1 \<mapsto> NannyEventPrivate True 5], brk := 1,
               py_refcnt := (\<lambda>_. 1)(5 := 2), trace := [PyRef 5]\<rparr>)"
  by (simp add: nanny_event_new_def nanny_event_private_new_def py_ref_def event_new_def
      nullptr_def world0_def nanny_handle_def)

text \<open>
  C1, on the code. No constructor gives \<open>m_finished\<close> a value. A nanny event is made for
  ward 5 and the flag of its new payload comes out set: the payload counts as finished
  before any invocation, three invocations of \<open>call_finish()\<close> leave the world as it
  was, and \<open>finish()\<close> is entered not once. When the handle is destroyed, the payload
  is deleted on the spot, so over its whole life \<open>finish()\<close> is never entered.
\<close>

theorem call_finish_born_finished:
  "fst (nanny_event_new drv_ok True 7 False 5 world0) = Inr nanny_handle
   \<and> trace nanny_born_finished = [PyRef 5]
   \<and> is_finished (m_p nanny_handle) nanny_born_finished = Some True
   \<and> (call_finish (m_p nanny_handle) ^^ 3) nanny_born_finished = nanny_born_finished
   \<and> count_list (trace ((call_finish (m_p nanny_handle) ^^ 3) nanny_born_finished))
         (Finish (m_p nanny_handle)) = 0
   \<and> trace (drain drv_ok (event_dtor cfg_cb drv_ok nanny_handle
                ((call_finish (m_p nanny_handle) ^^ 3) nanny_born_finished)))
       = [PyRef 5, Delete 1, Cl (ClReleaseEvent 7) CL_SUCCESS]"
proof -
  let ?w = "world0\<lparr>heap := [1 \<mapsto> NannyEventPrivate True 5], brk := 1,
               py_refcnt := (\<lambda>_. 1)(5 := 2), trace := [PyRef 5]\<rparr>"
  have w: "nanny_born_finished = ?w"
    by (simp add: nanny_born_finished_def nanny_born_finished_eq)
  have p: "m_p nanny_handle = 1"
    by (simp add: nanny_handle_def)
  have h: "heap ?w 1 = Some (NannyEventPrivate True 5)"
    by (simp add: world0_def)
  have n: "(call_finish 1 ^^ 3) ?w = ?w"
    using h by (rule call_finish_funpow_finished) simp
  have d: "trace (drain drv_ok (event_dtor cfg_cb drv_ok nanny_handle ?w))
       = [PyRef 5, Delete 1, Cl (ClReleaseEvent 7) CL_SUCCESS]"
    by (simp add: event_dtor_def release_private_def is_finished_def delete_payload_def
        pyopencl_call_guarded_cleanup_def drain_def pending_def drv_ok_def drv_const_def
        nanny_handle_def nullptr_def world0_def)
  have c: "fst (nanny_event_new drv_ok True 7 False 5 world0) = Inr nanny_handle"
    by (simp add: nanny_born_finished_eq)
  have i: "is_finished 1 ?w = Some True"
    by (simp add: is_finished_def)
  have t: "trace ?w = [PyRef 5]"
    by simp
  from c i t n d show ?thesis
    unfolding w p by simp
qed

subsection \<open>Overlapping invocations\<close>

lemma call_finish_step_twice:
  "call_finish_step p (fst (call_finish_step p Entry s)) (snd (call_finish_step p Entry s))
     = (Returned, call_finish p s)"
proof (cases "heap s p")
  case None
  then show ?thesis by (simp add: call_finish_def)
next
  case (Some obj)
  then show ?thesis
    by (cases obj; cases "m_finished obj")
       (simp_all add: call_finish_def exchange_def)
qed

lemma count_list_update:
  "i < length xs \<Longrightarrow>
   count_list (xs[i := y]) a + (if xs ! i = a then 1 else 0)
     = count_list xs a + (if y = a then 1 else 0)"
proof (induction xs arbitrary: i)
  case Nil
  then show ?case by simp
next
  case (Cons x xs)
  show ?case
  proof (cases i)
    case 0
    then show ?thesis by simp
  next
    case (Suc j)
    with Cons.prems have "j < length xs" by simp
    from Cons.IH [OF this] Suc show ?thesis
      by (simp split: if_splits)
  qed
qed

lemma count_list_all_Entry: "set pcs \<subseteq> {Entry} \<Longrightarrow> count_list pcs Won = 0"
  by (induction pcs) auto

lemma finish_trace: "trace (finish obj p s) = trace s @ [Finish p]"
  by (cases obj) (simp_all add: event_private_finish_def)

lemma finish_heap: "heap (finish obj p s) = heap s"
  by (cases obj) (simp_all add: event_private_finish_def)

lemma finish_ub: "ub (finish obj p s) = ub s"
  by (cases obj) (simp_all add: event_private_finish_def)

lemma guard_inv_step:
  assumes inv: "guard_inv p c0 u0 (pcs, s)" and i: "i < length pcs"
    and st: "call_finish_step p (pcs ! i) s = (pc1, s1)"
  shows "guard_inv p c0 u0 (pcs[i := pc1], s1)"
proof -
  from inv obtain obj where h: "heap s p = Some obj" and u: "ub s = u0"
    and a: "m_finished obj \<Longrightarrow> count_list pcs Won + count_list (trace s) (Finish p) = c0 + 1"
    and b: "\<not> m_finished obj \<Longrightarrow> set pcs \<subseteq> {Entry} \<and> count_list (trace s) (Finish p) = c0"
    by (auto simp: guard_inv_def split: option.splits if_splits)
  note upd = count_list_update [OF i, of pc1 Won]
  show ?thesis
  proof (cases "pcs ! i")
    case Entry
    show ?thesis
    proof (cases "m_finished obj")
      case True
      with Entry st h have "pc1 = Returned" and "s1 = s\<lparr>heap := (heap s)(p \<mapsto> set_m_finished True obj)\<rparr>"
        by (auto simp: exchange_def)
      with True h u a upd Entry show ?thesis
        by (simp add: guard_inv_def)
    next
      case False
      with Entry st h have "pc1 = Won" and "s1 = s\<lparr>heap := (heap s)(p \<mapsto> set_m_finished True obj)\<rparr>"
        by (auto simp: exchange_def)
      with False h u b upd Entry count_list_all_Entry [of pcs] show ?thesis
        by (simp add: guard_inv_def)
    qed
  next
    case Won
    with i have "Won \<in> set pcs"
      by (metis nth_mem)
    with b have f: "m_finished obj"
      by auto
    from Won st h have "pc1 = Returned" and "s1 = finish obj p s"
      by auto
    with f h u a upd Won show ?thesis
      by (simp add: guard_inv_def finish_trace finish_heap finish_ub)
  next
    case Returned
    with st have "pc1 = Returned" and "s1 = s"
      by auto
    with Returned inv show ?thesis
      by (metis list_update_id)
  qed
qed

lemma guard_inv_interleave:
  "guard_inv p c0 u0 c \<Longrightarrow> guard_inv p c0 u0 (interleave p sched c)"
proof (induction sched arbitrary: c)
  case Nil
  then show ?case by simp
next
  case (Cons i sched)
  obtain pcs s where c: "c = (pcs, s)"
    by (cases c)
  show ?case
  proof (cases "i < length pcs")
    case True
    obtain pc1 s1 where st: "call_finish_step p (pcs ! i) s = (pc1, s1)"
      by (cases "call_finish_step p (pcs ! i) s")
    from Cons.prems c True st have "guard_inv p c0 u0 (pcs[i := pc1], s1)"
      using guard_inv_step by blast
    then have "guard_inv p c0 u0 (interleave p sched (pcs[i := pc1], s1))"
      by (rule Cons.IH)
    with c True st show ?thesis by simp
  next
    case False
    with Cons c show ?thesis by simp
  qed
qed

lemma interleave_length:
  "interleave p sched (pcs, s) = (pcs', s') \<Longrightarrow> length pcs' = length pcs"
proof (induction sched arbitrary: pcs s)
  case Nil
  then show ?case by simp
next
  case (Cons i sched)
  then show ?case
    by (auto split: if_splits prod.splits)
qed

text \<open>
  Overlapping invocations. Any number of callers start \<open>call_finish()\<close> on a live
  payload whose flag is clear, and their steps interleave in any order: at every moment
  \<open>finish()\<close> has been entered at most once; a caller that has returned finds the flag
  set; when all callers have returned, \<open>finish()\<close> has been entered exactly once. One
  caller alone, taking its two steps, does what \<open>call_finish\<close> does.
\<close>

theorem call_finish_interleaved:
  assumes "heap s p = Some obj" and "\<not> m_finished obj"
    and "interleave p sched (replicate n Entry, s) = (pcs, s')"
  shows "count_list (trace s') (Finish p) \<le> count_list (trace s) (Finish p) + 1
       \<and> (0 < n \<and> (\<forall>i<n. pcs ! i = Returned) \<longrightarrow>
            count_list (trace s') (Finish p) = count_list (trace s) (Finish p) + 1)
       \<and> (\<forall>i<n. pcs ! i = Returned \<longrightarrow> is_finished p s' = Some True)
       \<and> ub s' = ub s"
proof -
  let ?c0 = "count_list (trace s) (Finish p)"
  from assms(1,2) have "guard_inv p ?c0 (ub s) (replicate n Entry, s)"
    by (auto simp: guard_inv_def)
  then have "guard_inv p ?c0 (ub s) (interleave p sched (replicate n Entry, s))"
    by (rule guard_inv_interleave)
  with assms(3) have inv: "guard_inv p ?c0 (ub s) (pcs, s')"
    by simp
  from assms(3) have len: "length pcs = n"
    using interleave_length by fastforce
  from inv obtain obj' where h: "heap s' p = Some obj'" and u: "ub s' = ub s"
    and a: "m_finished obj' \<Longrightarrow> count_list pcs Won + count_list (trace s') (Finish p) = ?c0 + 1"
    and b: "\<not> m_finished obj' \<Longrightarrow> set pcs \<subseteq> {Entry} \<and> count_list (trace s') (Finish p) = ?c0"
    by (auto simp: guard_inv_def split: option.splits if_splits)
  have le: "count_list (trace s') (Finish p) \<le> ?c0 + 1"
    using a b by (cases "m_finished obj'") auto
  have fin: "m_finished obj'" if "i < n" and "pcs ! i = Returned" for i
  proof (rule ccontr)
    assume "\<not> m_finished obj'"
    with b have "set pcs \<subseteq> {Entry}" by simp
    moreover from that len have "Returned \<in> set pcs"
      by (metis nth_mem)
    ultimately show False by auto
  qed
  have obs: "is_finished p s' = Some True" if "i < n" and "pcs ! i = Returned" for i
    using fin [OF that] h by (simp add: is_finished_def)
  have eq: "count_list (trace s') (Finish p) = ?c0 + 1"
    if "0 < n" and all: "\<forall>i<n. pcs ! i = Returned"
  proof -
    from that have f: "m_finished obj'"
      using fin by blast
    have "Won \<notin> set pcs"
    proof
      assume "Won \<in> set pcs"
      then obtain j where "j < length pcs" and "pcs ! j = Won"
        by (auto simp: in_set_conv_nth)
      with all len show False by auto
    qed
    then have "count_list pcs Won = 0"
      by (simp add: count_list_0_iff)
    with a [OF f] show ?thesis by simp
  qed
  from le eq obs u show ?thesis
    by blast
qed

text \<open>
  The loser of the exchange does not wait for the winner: with two callers on the payload
  of \<open>world_plain\<close>, after caller 0 has made its exchange and caller 1 its own, caller 1
  has returned and finds the flag set, while caller 0 has not entered \<open>finish()\<close> yet.
\<close>

lemma loser_returns_before_finish:
  "interleave 1 [0, 1] ([Entry, Entry], world_plain)
     = ([Won, Returned], world_plain\<lparr>heap := [1 \<mapsto> EventPrivate True]\<rparr>)
   \<and> trace (world_plain\<lparr>heap := [1 \<mapsto> EventPrivate True]\<rparr>) = []"
  by (simp add: world_plain_def world0_def exchange_def)

section \<open>Waiting on an event\<close>

lemma pyopencl_call_guarded_ok:
  "status_of drv (trace s) c = CL_SUCCESS \<Longrightarrow>
   pyopencl_call_guarded drv name c s = (Inr (), s\<lparr>trace := trace s @ [Cl c CL_SUCCESS]\<rparr>)"
  by (simp add: pyopencl_call_guarded_def)

lemma pyopencl_call_guarded_fail:
  "status_of drv (trace s) c \<noteq> CL_SUCCESS \<Longrightarrow>
   pyopencl_call_guarded drv name c s =
     (Inl (Clerror name (status_of drv (trace s) c)),
      s\<lparr>trace := trace s @ [Cl c (status_of drv (trace s) c)]\<rparr>)"
  by (simp add: pyopencl_call_guarded_def Let_def)

lemma pyopencl_call_guarded_Inr:
  "pyopencl_call_guarded drv name c s = (Inr u, s') \<Longrightarrow>
   status_of drv (trace s) c = CL_SUCCESS \<and> s' = s\<lparr>trace := trace s @ [Cl c CL_SUCCESS]\<rparr>"
  by (auto simp: pyopencl_call_guarded_def Let_def split: if_splits)

text \<open>
  C3, as amended. A call of \<open>wait()\<close> that returns normally has made the native
  blocking wait on the singleton set holding this handle, which answered with success, and
  then, if the handle has a payload, has run \<open>call_finish()\<close> on it before returning:
  on return the payload's completion flag is set, and when that \<open>call_finish()\<close>
  found the flag clear, \<open>finish()\<close> was entered during the call, after the native
  wait. When it found the flag set already, the call returns without entering
  \<open>finish()\<close> and without waiting for the invocation that set the flag. A handle
  without a payload only makes the native wait.
\<close>

theorem wait_finalizes:
  assumes "wait drv this s = (Inr u, s')"
  shows "status_of drv (trace s) (ClWaitForEvents [data this]) = CL_SUCCESS
       \<and> (m_p this = nullptr \<longrightarrow>
            s' = s\<lparr>trace := trace s @ [Cl (ClWaitForEvents [data this]) CL_SUCCESS]\<rparr>)
       \<and> (m_p this \<noteq> nullptr \<longrightarrow>
            s' = call_finish (m_p this)
                   (s\<lparr>trace := trace s @ [Cl (ClWaitForEvents [data this]) CL_SUCCESS]\<rparr>))
       \<and> (m_p this \<noteq> nullptr \<and> heap s (m_p this) = Some obj \<longrightarrow>
            is_finished (m_p this) s' = Some True
            \<and> trace s' = trace s @ Cl (ClWaitForEvents [data this]) CL_SUCCESS
                           # (if m_finished obj then [] else [Finish (m_p this)]))"
proof -
  let ?c = "ClWaitForEvents [data this]"
  let ?s1 = "s\<lparr>trace := trace s @ [Cl ?c CL_SUCCESS]\<rparr>"
  obtain r s1 where g: "pyopencl_call_guarded drv ''clWaitForEvents'' ?c s = (r, s1)"
    by (cases "pyopencl_call_guarded drv ''clWaitForEvents'' ?c s")
  with assms obtain v where r: "r = Inr v"
    by (cases r) (simp_all add: wait_def)
  from g r have ok: "status_of drv (trace s) ?c = CL_SUCCESS" and s1: "s1 = ?s1"
    using pyopencl_call_guarded_Inr by blast+
  from assms g r s1 have s': "s' = (if m_p this \<noteq> nullptr then call_finish (m_p this) ?s1 else ?s1)"
    by (simp add: wait_def)
  have "is_finished (m_p this) s' = Some True
        \<and> trace s' = trace s @ Cl ?c CL_SUCCESS # (if m_finished obj then [] else [Finish (m_p this)])"
    if "m_p this \<noteq> nullptr" and h: "heap s (m_p this) = Some obj"
  proof -
    from h have h1: "heap ?s1 (m_p this) = Some obj" by simp
    show ?thesis
    proof (cases "m_finished obj")
      case True
      with h1 that s' show ?thesis
        by (simp add: call_finish_finished is_finished_def)
    next
      case False
      with h1 that s' show ?thesis
        by (simp add: call_finish_unfinished is_finished_def)
    qed
  qed
  with ok s' show ?thesis by simp
qed

theorem wait_finalizes_witness:
  "wait drv_ok \<lparr>data = 7, m_p = 1\<rparr> world_plain
     = (Inr (), world_plain\<lparr>heap := [1 \<mapsto> EventPrivate True],
                trace := [Cl (ClWaitForEvents [7]) CL_SUCCESS, Finish 1]\<rparr>)
   \<and> is_finished 1 (world_plain\<lparr>heap := [1 \<mapsto> EventPrivate True],
                trace := [Cl (ClWaitForEvents [7]) CL_SUCCESS, Finish 1]\<rparr>) = Some True"
proof -
  let ?e = "\<lparr>data = 7, m_p = 1\<rparr> :: event"
  let ?w = "world_plain\<lparr>heap := [1 \<mapsto> EventPrivate True],
                trace := [Cl (ClWaitForEvents [7]) CL_SUCCESS, Finish 1]\<rparr>"
  have w: "wait drv_ok ?e world_plain = (Inr (), ?w)"
    by (simp add: wait_def pyopencl_call_guarded_def drv_ok_def drv_const_def world_plain_def
        world0_def nullptr_def call_finish_def exchange_def event_private_finish_def)
  have h: "m_p ?e \<noteq> nullptr \<and> heap world_plain (m_p ?e) = Some (EventPrivate False)"
    by (simp add: nullptr_def world_plain_def world0_def)
  from wait_finalizes [OF w, of "EventPrivate False"] h
  have "is_finished (m_p ?e) ?w = Some True"
    by blast
  with w show ?thesis
    by simp
qed

text \<open>
  C3, as stated, fails. Two callers wait on the nanny event of \<open>nanny_made\<close>. The first
  has made its native wait and the exchange of its \<open>call_finish()\<close>, which it won, and
  has not yet called \<open>finish()\<close>. The second caller's \<open>wait()\<close> then runs from start
  to end and returns normally: the flag is set, and \<open>finish()\<close> has not been entered.
  It is entered only afterwards, by the first caller's next step.
\<close>

theorem wait_finalizes_counterexample:
  "call_finish_step (m_p nanny_handle) Entry
       (snd (pyopencl_call_guarded drv_ok ''clWaitForEvents''
               (ClWaitForEvents [data nanny_handle]) nanny_made))
     = (Won, wait_overlap)
   \<and> fst (wait drv_ok nanny_handle wait_overlap) = Inr ()
   \<and> is_finished (m_p nanny_handle) (snd (wait drv_ok nanny_handle wait_overlap)) = Some True
   \<and> trace (snd (wait drv_ok nanny_handle wait_overlap))
       = [PyRef 5, Cl (ClWaitForEvents [7]) CL_SUCCESS, Cl (ClWaitForEvents [7]) CL_SUCCESS]
   \<and> count_list (trace (snd (wait drv_ok nanny_handle wait_overlap))) (Finish 1) = 0
   \<and> trace (snd (call_finish_step (m_p nanny_handle) Won
                (snd (wait drv_ok nanny_handle wait_overlap))))
       = [PyRef 5, Cl (ClWaitForEvents [7]) CL_SUCCESS, Cl (ClWaitForEvents [7]) CL_SUCCESS,
          Finish 1]"
proof -
  let ?m = "world0\<lparr>heap := [1 \<mapsto> NannyEventPrivate True 5], brk := 1,
               py_refcnt := (\<lambda>_. 1)(5 := 2),
               trace := [PyRef 5, Cl (ClWaitForEvents [7]) CL_SUCCESS]\<rparr>"
  let ?r = "world0\<lparr>heap := [1 \<mapsto> NannyEventPrivate True 5], brk := 1,
               py_refcnt := (\<lambda>_. 1)(5 := 2),
               trace := [PyRef 5, Cl (ClWaitForEvents [7]) CL_SUCCESS,
                         Cl (ClWaitForEvents [7]) CL_SUCCESS]\<rparr>"
  have made: "nanny_made
     = world0\<lparr>heap := [1 \<mapsto> NannyEventPrivate False 5], brk := 1,
               py_refcnt := (\<lambda>_. 1)(5 := 2), trace := [PyRef 5]\<rparr>"
    by (simp add: nanny_made_def nanny_made_eq)
  have step: "call_finish_step (m_p nanny_handle) Entry
       (snd (pyopencl_call_guarded drv_ok ''clWaitForEvents''
               (ClWaitForEvents [data nanny_handle]) nanny_made))
     = (Won, ?m)"
    unfolding made
    by (simp add: pyopencl_call_guarded_def drv_ok_def drv_const_def nanny_handle_def
        exchange_def world0_def)
  then have m: "wait_overlap = ?m"
    by (simp add: wait_overlap_def)
  have w: "wait drv_ok nanny_handle ?m = (Inr (), ?r)"
    by (simp add: wait_def pyopencl_call_guarded_def drv_ok_def drv_const_def nanny_handle_def
        nullptr_def call_finish_def exchange_def world0_def)
  have f: "trace (snd (call_finish_step (m_p nanny_handle) Won ?r))
       = [PyRef 5, Cl (ClWaitForEvents [7]) CL_SUCCESS, Cl (ClWaitForEvents [7]) CL_SUCCESS,
          Finish 1]"
    by (simp add: nanny_handle_def event_private_finish_def world0_def)
  have i: "is_finished (m_p nanny_handle) ?r = Some True"
    by (simp add: is_finished_def nanny_handle_def world0_def)
  have t: "trace ?r = [PyRef 5, Cl (ClWaitForEvents [7]) CL_SUCCESS,
                       Cl (ClWaitForEvents [7]) CL_SUCCESS]"
    by (simp add: world0_def)
  from step f i t show ?thesis
    unfolding m w by simp
qed

section \<open>Construction with a failing retain\<close>

lemma delete_payload_live:
  "p \<noteq> nullptr \<Longrightarrow> heap s p = Some obj \<Longrightarrow>
   delete_payload p s = s\<lparr>heap := (heap s)(p := None), trace := trace s @ [Delete p]\<rparr>"
  by (simp add: delete_payload_def)

text \<open>
  C5. When \<open>retain\<close> is true and the driver answers \<open>clRetainEvent\<close> with a status
  other than success, the constructor ends with the error that carries the routine name and
  that status, and it has deleted the payload it was given first: a non-null live payload
  is gone from the heap, with one \<open>delete\<close> after the failed native call and no
  undefined behaviour; for the null pointer there is nothing to delete.
\<close>

theorem event_new_retain_failure:
  assumes "status_of drv (trace s) (ClRetainEvent evt) = st" and "st \<noteq> CL_SUCCESS"
  shows "fst (event_new drv evt True p s) = Inl (Clerror ''clRetainEvent'' st)
       \<and> snd (event_new drv evt True p s)
           = delete_payload p (s\<lparr>trace := trace s @ [Cl (ClRetainEvent evt) st]\<rparr>)
       \<and> (p = nullptr \<longrightarrow>
            snd (event_new drv evt True p s) = s\<lparr>trace := trace s @ [Cl (ClRetainEvent evt) st]\<rparr>)
       \<and> (p \<noteq> nullptr \<and> heap s p = Some obj \<longrightarrow>
            snd (event_new drv evt True p s)
              = s\<lparr>heap := (heap s)(p := None),
                  trace := trace s @ [Cl (ClRetainEvent evt) st, Delete p]\<rparr>)"
  using assms
  by (auto simp: event_new_def pyopencl_call_guarded_def delete_payload_def)

theorem event_new_retain_failure_witness:
  "status_of (drv_const CL_INVALID_VALUE) (trace world_plain) (ClRetainEvent 7) = CL_INVALID_VALUE
   \<and> CL_INVALID_VALUE \<noteq> CL_SUCCESS
   \<and> (1::nat) \<noteq> nullptr \<and> heap world_plain 1 = Some (EventPrivate False)
   \<and> event_new (drv_const CL_INVALID_VALUE) 7 True 1 world_plain
       = (Inl (Clerror ''clRetainEvent'' CL_INVALID_VALUE),
          world_plain\<lparr>heap := Map.empty,
             trace := [Cl (ClRetainEvent 7) CL_INVALID_VALUE, Delete 1]\<rparr>)"
proof -
  have a: "status_of (drv_const CL_INVALID_VALUE) (trace world_plain) (ClRetainEvent 7)
           = CL_INVALID_VALUE"
    by (simp add: drv_const_def)
  have h: "(1::nat) \<noteq> nullptr \<and> heap world_plain 1 = Some (EventPrivate False)"
    by (simp add: nullptr_def world_plain_def world0_def)
  from event_new_retain_failure [OF a CL_INVALID_VALUE_not_success, of 1 "EventPrivate False"] h
  have "fst (event_new (drv_const CL_INVALID_VALUE) 7 True 1 world_plain)
          = Inl (Clerror ''clRetainEvent'' CL_INVALID_VALUE)
        \<and> snd (event_new (drv_const CL_INVALID_VALUE) 7 True 1 world_plain)
          = world_plain\<lparr>heap := (heap world_plain)(1 := None),
               trace := trace world_plain @ [Cl (ClRetainEvent 7) CL_INVALID_VALUE, Delete 1]\<rparr>"
    by blast
  then have "event_new (drv_const CL_INVALID_VALUE) 7 True 1 world_plain
       = (Inl (Clerror ''clRetainEvent'' CL_INVALID_VALUE),
          world_plain\<lparr>heap := Map.empty,
             trace := [Cl (ClRetainEvent 7) CL_INVALID_VALUE, Delete 1]\<rparr>)"
    by (simp add: prod_eq_iff world_plain_def world0_def)
  with a h CL_INVALID_VALUE_not_success show ?thesis
    by blast
qed

section \<open>Info queries\<close>

lemma pyopencl_get_info_Inr:
  "fst (pyopencl_get_info drv ty name c s) = Inr (GenericInfo ty' v) \<Longrightarrow> ty' = ty"
  by (simp add: pyopencl_get_info_def pyopencl_call_guarded_def Let_def split: if_splits)

lemma get_info_other:
  "param \<notin> {CL_EVENT_COMMAND_QUEUE, CL_EVENT_COMMAND_TYPE,
              CL_EVENT_COMMAND_EXECUTION_STATUS, CL_EVENT_REFERENCE_COUNT,
              CL_EVENT_CONTEXT} \<Longrightarrow>
   get_info cfg drv this param s = (Inl (Clerror ''Event.get_info'' CL_INVALID_VALUE), s)"
  by (simp add: get_info_def)

lemma get_info_Inr:
  assumes "fst (get_info cfg drv this param s) = Inr (GenericInfo ty v)"
  shows "(param, ty) \<in> {(CL_EVENT_COMMAND_QUEUE, Opaque_command_queue),
                     (CL_EVENT_COMMAND_TYPE, Int_cl_command_type),
                     (CL_EVENT_COMMAND_EXECUTION_STATUS, Int_cl_int),
                     (CL_EVENT_REFERENCE_COUNT, Int_cl_uint),
                     (CL_EVENT_CONTEXT, Opaque_context)}"
proof (cases "param = CL_EVENT_COMMAND_QUEUE")
  case True
  with assms show ?thesis
    by (simp add: get_info_def) (drule pyopencl_get_info_Inr, simp)
next
  case nq: False
  show ?thesis
  proof (cases "param = CL_EVENT_COMMAND_TYPE")
    case True
    with assms nq show ?thesis
      by (simp add: get_info_def) (drule pyopencl_get_info_Inr, simp)
  next
    case nt: False
    show ?thesis
    proof (cases "param = CL_EVENT_COMMAND_EXECUTION_STATUS")
      case True
      with assms nq nt show ?thesis
        by (simp add: get_info_def) (drule pyopencl_get_info_Inr, simp)
    next
      case ns: False
      show ?thesis
      proof (cases "param = CL_EVENT_REFERENCE_COUNT")
        case True
        with assms nq nt ns show ?thesis
          by (simp add: get_info_def) (drule pyopencl_get_info_Inr, simp)
      next
        case nr: False
        show ?thesis
        proof (cases "0x1010 \<le> PYOPENCL_CL_VERSION cfg \<and> param = CL_EVENT_CONTEXT")
          case True
          with assms nq nt ns nr show ?thesis
            by (simp add: get_info_def) (drule pyopencl_get_info_Inr, simp)
        next
          case False
          with assms nq nt ns nr show ?thesis
            by (simp add: get_info_def)
        qed
      qed
    qed
  qed
qed

lemma get_profiling_info_other:
  "param \<notin> {CL_PROFILING_COMMAND_QUEUED, CL_PROFILING_COMMAND_SUBMIT,
              CL_PROFILING_COMMAND_START, CL_PROFILING_COMMAND_END} \<Longrightarrow>
   get_profiling_info drv this param s
     = (Inl (Clerror ''Event.get_profiling_info'' CL_INVALID_VALUE), s)"
  by (simp add: get_profiling_info_def)

lemma event__get_profiling_info_other:
  "param \<notin> {CL_PROFILING_COMMAND_QUEUED, CL_PROFILING_COMMAND_SUBMIT,
              CL_PROFILING_COMMAND_START, CL_PROFILING_COMMAND_END} \<Longrightarrow>
   event__get_profiling_info drv this param out s
     = ((Some (Clerror ''Event.get_profiling_info'' CL_INVALID_VALUE), out), s)"
  by (simp add: event__get_profiling_info_def get_profiling_info_other c_handle_error_def)

lemma get_profiling_info_Inr:
  assumes "fst (get_profiling_info drv this param s) = Inr (GenericInfo ty v)"
  shows "ty = Int_cl_ulong
       \<and> param \<in> {CL_PROFILING_COMMAND_QUEUED, CL_PROFILING_COMMAND_SUBMIT,
                   CL_PROFILING_COMMAND_START, CL_PROFILING_COMMAND_END}"
proof (cases "param \<in> {CL_PROFILING_COMMAND_QUEUED, CL_PROFILING_COMMAND_SUBMIT,
                   CL_PROFILING_COMMAND_START, CL_PROFILING_COMMAND_END}")
  case True
  then have "get_profiling_info drv this param s
      = pyopencl_get_info drv Int_cl_ulong ''clGetEventProfilingInfo''
          (ClGetEventProfilingInfo (data this) param) s"
    by (simp add: get_profiling_info_def)
  with assms True show ?thesis
    using pyopencl_get_info_Inr by metis
next
  case False
  with assms show ?thesis
    by (simp add: get_profiling_info_other)
qed

text \<open>
  C6. \<open>get_info\<close> returns a value only for the five fields command queue, command
  type, execution status, reference count and context, each with the type of its field,
  and \<open>get_profiling_info\<close> only for the four fields queued, submit, start and end. For
  every other field value each of them fails with the error whose code is
  \<open>CL_INVALID_VALUE\<close>, without a native call or any other change of the world, and the
  wrapper \<open>event__get_profiling_info\<close> then leaves the value behind its output pointer
  as it was.
\<close>

theorem info_unrecognized_field:
  "(fst (get_info cfg drv this param s) = Inr (GenericInfo ty v) \<longrightarrow>
      (param, ty) \<in> {(CL_EVENT_COMMAND_QUEUE, Opaque_command_queue),
                     (CL_EVENT_COMMAND_TYPE, Int_cl_command_type),
                     (CL_EVENT_COMMAND_EXECUTION_STATUS, Int_cl_int),
                     (CL_EVENT_REFERENCE_COUNT, Int_cl_uint),
                     (CL_EVENT_CONTEXT, Opaque_context)})
   \<and> (param \<notin> {CL_EVENT_COMMAND_QUEUE, CL_EVENT_COMMAND_TYPE,
                  CL_EVENT_COMMAND_EXECUTION_STATUS, CL_EVENT_REFERENCE_COUNT,
                  CL_EVENT_CONTEXT} \<longrightarrow>
        get_info cfg drv this param s = (Inl (Clerror ''Event.get_info'' CL_INVALID_VALUE), s))
   \<and> (fst (get_profiling_info drv this param s) = Inr (GenericInfo ty v) \<longrightarrow>
        ty = Int_cl_ulong
        \<and> param \<in> {CL_PROFILING_COMMAND_QUEUED, CL_PROFILING_COMMAND_SUBMIT,
                    CL_PROFILING_COMMAND_START, CL_PROFILING_COMMAND_END})
   \<and> (param \<notin> {CL_PROFILING_COMMAND_QUEUED, CL_PROFILING_COMMAND_SUBMIT,
                  CL_PROFILING_COMMAND_START, CL_PROFILING_COMMAND_END} \<longrightarrow>
        get_profiling_info drv this param s
          = (Inl (Clerror ''Event.get_profiling_info'' CL_INVALID_VALUE), s)
        \<and> event__get_profiling_info drv this param out s
          = ((Some (Clerror ''Event.get_profiling_info'' CL_INVALID_VALUE), out), s))"
proof -
  have 1: "fst (get_info cfg drv this param s) = Inr (GenericInfo ty v) \<longrightarrow>
      (param, ty) \<in> {(CL_EVENT_COMMAND_QUEUE, Opaque_command_queue),
                     (CL_EVENT_COMMAND_TYPE, Int_cl_command_type),
                     (CL_EVENT_COMMAND_EXECUTION_STATUS, Int_cl_int),
                     (CL_EVENT_REFERENCE_COUNT, Int_cl_uint),
                     (CL_EVENT_CONTEXT, Opaque_context)}"
    using get_info_Inr by blast
  have 2: "fst (get_profiling_info drv this param s) = Inr (GenericInfo ty v) \<longrightarrow>
        ty = Int_cl_ulong
        \<and> param \<in> {CL_PROFILING_COMMAND_QUEUED, CL_PROFILING_COMMAND_SUBMIT,
                    CL_PROFILING_COMMAND_START, CL_PROFILING_COMMAND_END}"
    using get_profiling_info_Inr by blast
  from 1 2 show ?thesis
    by (simp add: get_info_other get_profiling_info_other event__get_profiling_info_other)
qed

theorem info_unrecognized_field_witness:
  "get_info cfg_cb drv_ok \<lparr>data = 7, m_p = 0\<rparr> 0x1280 world0
     = (Inl (Clerror ''Event.get_info'' CL_INVALID_VALUE), world0)
   \<and> event__get_profiling_info drv_ok \<lparr>data = 7, m_p = 0\<rparr> 0x11D0 (GenericInfo Int_cl_int 5) world0
     = ((Some (Clerror ''Event.get_profiling_info'' CL_INVALID_VALUE), GenericInfo Int_cl_int 5),
        world0)
   \<and> fst (get_info cfg_cb drv_ok \<lparr>data = 7, m_p = 0\<rparr> CL_EVENT_CONTEXT world0)
     = Inr (GenericInfo Opaque_context 0)"
proof -
  have a: "(0x1280 :: cl_uint) \<notin> {CL_EVENT_COMMAND_QUEUE, CL_EVENT_COMMAND_TYPE,
                  CL_EVENT_COMMAND_EXECUTION_STATUS, CL_EVENT_REFERENCE_COUNT,
                  CL_EVENT_CONTEXT}"
    by (simp add: CL_EVENT_COMMAND_QUEUE_def CL_EVENT_COMMAND_TYPE_def
        CL_EVENT_COMMAND_EXECUTION_STATUS_def CL_EVENT_REFERENCE_COUNT_def CL_EVENT_CONTEXT_def)
  have b: "(0x11D0 :: cl_uint) \<notin> {CL_PROFILING_COMMAND_QUEUED, CL_PROFILING_COMMAND_SUBMIT,
                  CL_PROFILING_COMMAND_START, CL_PROFILING_COMMAND_END}"
    by (simp add: CL_PROFILING_COMMAND_QUEUED_def CL_PROFILING_COMMAND_SUBMIT_def
        CL_PROFILING_COMMAND_START_def CL_PROFILING_COMMAND_END_def)
  have c: "fst (get_info cfg_cb drv_ok \<lparr>data = 7, m_p = 0\<rparr> CL_EVENT_CONTEXT world0)
     = Inr (GenericInfo Opaque_context 0)"
    by (simp add: get_info_def pyopencl_get_info_def pyopencl_call_guarded_def cfg_cb_def
        drv_ok_def drv_const_def CL_EVENT_COMMAND_QUEUE_def CL_EVENT_COMMAND_TYPE_def
        CL_EVENT_COMMAND_EXECUTION_STATUS_def CL_EVENT_REFERENCE_COUNT_def CL_EVENT_CONTEXT_def)
  from info_unrecognized_field [of cfg_cb drv_ok "\<lparr>data = 7, m_p = 0\<rparr>" "0x1280" world0
      Opaque_context 0 "GenericInfo Int_cl_int 5"] a
  have 1: "get_info cfg_cb drv_ok \<lparr>data = 7, m_p = 0\<rparr> 0x1280 world0
     = (Inl (Clerror ''Event.get_info'' CL_INVALID_VALUE), world0)"
    by blast
  from info_unrecognized_field [of cfg_cb drv_ok "\<lparr>data = 7, m_p = 0\<rparr>" "0x11D0" world0
      Opaque_context 0 "GenericInfo Int_cl_int 5"] b
  have 2: "event__get_profiling_info drv_ok \<lparr>data = 7, m_p = 0\<rparr> 0x11D0 (GenericInfo Int_cl_int 5) world0
     = ((Some (Clerror ''Event.get_profiling_info'' CL_INVALID_VALUE), GenericInfo Int_cl_int 5),
        world0)"
    by blast
  from 1 2 c show ?thesis by blast
qed

section \<open>Destroying a handle without a payload\<close>

text \<open>
  C10. When the payload pointer is null, \<open>release_private()\<close> returns at once, so the
  destructor is the release of the native handle and nothing else: no callback is
  registered, no thread is started, the heap and the foreign reference counts are as
  before, and the trace grows by the one native call \<open>clReleaseEvent\<close> on this handle
  (followed, when the driver answers it with a failure, by the diagnostic line of the
  cleanup guard).
\<close>

theorem event_dtor_null_payload:
  assumes "m_p this = nullptr"
  shows "release_private cfg drv this s = s
       \<and> event_dtor cfg drv this s
           = pyopencl_call_guarded_cleanup drv ''clReleaseEvent'' (ClReleaseEvent (data this)) s
       \<and> heap (event_dtor cfg drv this s) = heap s
       \<and> py_refcnt (event_dtor cfg drv this s) = py_refcnt s
       \<and> registered (event_dtor cfg drv this s) = registered s
       \<and> threads (event_dtor cfg drv this s) = threads s
       \<and> ub (event_dtor cfg drv this s) = ub s
       \<and> trace (event_dtor cfg drv this s)
           = trace s @ Cl (ClReleaseEvent (data this))
                          (status_of drv (trace s) (ClReleaseEvent (data this)))
               # (if status_of drv (trace s) (ClReleaseEvent (data this)) = CL_SUCCESS then []
                  else [Cerr [Text ''clReleaseEvent'',
                          Code (status_of drv (trace s) (ClReleaseEvent (data this))), Endl]])"
  using assms
  by (simp add: release_private_def event_dtor_def pyopencl_call_guarded_cleanup_def Let_def)

theorem event_dtor_null_payload_witness:
  "m_p \<lparr>data = 7, m_p = 0\<rparr> = nullptr
   \<and> event_dtor cfg_cb drv_ok \<lparr>data = 7, m_p = 0\<rparr> world_plain
       = world_plain\<lparr>trace := [Cl (ClReleaseEvent 7) CL_SUCCESS]\<rparr>"
proof -
  have a: "m_p \<lparr>data = 7, m_p = 0\<rparr> = nullptr"
    by (simp add: nullptr_def)
  from event_dtor_null_payload [OF a, of cfg_cb drv_ok world_plain]
  have "event_dtor cfg_cb drv_ok \<lparr>data = 7, m_p = 0\<rparr> world_plain
       = pyopencl_call_guarded_cleanup drv_ok ''clReleaseEvent'' (ClReleaseEvent 7) world_plain"
    by simp
  with a show ?thesis
    by (simp add: pyopencl_call_guarded_cleanup_def drv_ok_def drv_const_def world_plain_def
        world0_def)
qed

section \<open>Release of the payload\<close>



lemma release_private_callback_fail:
  assumes "m_p this \<noteq> nullptr" and "heap s (m_p this) = Some obj" and "\<not> m_finished obj"
    and "0x1010 \<le> PYOPENCL_CL_VERSION cfg" and "support_cb cfg"
    and "status_of drv (trace s)
           (ClSetEventCallback (data this) CL_COMPLETE (FinishDelete (m_p this))) = st"
    and "st \<noteq> CL_SUCCESS"
  shows "release_private cfg drv this s
           = s\<lparr>trace := trace s @
                 [Cl (ClSetEventCallback (data this) CL_COMPLETE (FinishDelete (m_p this))) st,
                  Cerr [Text cleanup_warning, Endl, What (Clerror ''clSetEventCallback'' st),
                        Text '' failed with code '', Code st, Endl]]\<rparr>"
  using assms
  by (simp add: release_private_def is_finished_def set_callback_def pyopencl_call_guarded_def
      Let_def)


subsection \<open>What the closures add to the trace\<close>

lemma count_Delete_call_finish:
  "count_list (trace (call_finish q s)) (Delete p) = count_list (trace s) (Delete p)"
proof (cases "heap s q")
  case None
  then show ?thesis by (simp add: call_finish_def)
next
  case (Some obj)
  then show ?thesis
    by (cases "m_finished obj") (simp_all add: call_finish_finished call_finish_unfinished)
qed

lemma count_Delete_cleanup:
  "count_list (trace (pyopencl_call_guarded_cleanup drv name c s)) (Delete p)
     = count_list (trace s) (Delete p)"
  by (simp add: pyopencl_call_guarded_cleanup_def Let_def)

lemma count_Delete_delete_payload:
  "count_list (trace (delete_payload q s)) (Delete p)
     = count_list (trace s) (Delete p) + (if q = p \<and> p \<noteq> nullptr then 1 else 0)"
  by (simp add: delete_payload_def)

lemma count_Delete_run_closure:
  "count_list (trace (run_closure drv func status s)) (Delete p)
     = count_list (trace s) (Delete p) + (if payload_of func = p \<and> p \<noteq> nullptr then 1 else 0)"
proof (cases func)
  case (FinishDelete q)
  then show ?thesis
    by (simp add: count_Delete_delete_payload count_Delete_call_finish)
next
  case (MonitorWait evt q)
  then show ?thesis
    by (simp add: count_Delete_delete_payload count_Delete_call_finish count_Delete_cleanup)
next
  case (PyCallback pyobj)
  then show ?thesis
    by (simp add: py_deref_def py_call_def)
qed

lemma count_Delete_fold:
  "p \<noteq> nullptr \<Longrightarrow>
   count_list (trace (fold (\<lambda>(func, status). run_closure drv func status) fs s)) (Delete p)
     = count_list (trace s) (Delete p) + length (filter (\<lambda>(func, status). payload_of func = p) fs)"
proof (induction fs arbitrary: s)
  case Nil
  then show ?case by simp
next
  case (Cons a fs)
  obtain func status where a: "a = (func, status)"
    by (cases a)
  from Cons show ?case
    by (simp add: a count_Delete_run_closure)
qed

lemma count_Delete_drain:
  "p \<noteq> nullptr \<Longrightarrow>
   count_list (trace (drain drv s)) (Delete p)
     = count_list (trace s) (Delete p)
       + length (filter (\<lambda>(func, status). payload_of func = p) (pending s))"
  by (simp add: drain_def count_Delete_fold)

lemma filter_pending_none:
  "\<forall>(func, status) \<in> set fs. payload_of func \<noteq> p \<Longrightarrow>
   filter (\<lambda>(func, status). payload_of func = p) fs = []"
  by (induction fs) auto



lemma heap_call_finish_other: "q \<noteq> p \<Longrightarrow> heap (call_finish q s) p = heap s p"
proof (cases "heap s q")
  case None
  then show ?thesis by (simp add: call_finish_def)
next
  case (Some obj)
  assume "q \<noteq> p"
  with Some show ?thesis
    by (cases "m_finished obj") (simp_all add: call_finish_finished call_finish_unfinished)
qed

lemma count_Finish_call_finish_other:
  "q \<noteq> p \<Longrightarrow> count_list (trace (call_finish q s)) (Finish p) = count_list (trace s) (Finish p)"
proof (cases "heap s q")
  case None
  then show ?thesis by (simp add: call_finish_def)
next
  case (Some obj)
  assume "q \<noteq> p"
  with Some show ?thesis
    by (cases "m_finished obj") (simp_all add: call_finish_finished call_finish_unfinished)
qed

lemma untouched_run_closure:
  assumes "payload_of func \<noteq> p"
  shows "heap (run_closure drv func status s) p = heap s p
       \<and> count_list (trace (run_closure drv func status s)) (Finish p)
           = count_list (trace s) (Finish p)"
proof (cases func)
  case (FinishDelete q)
  with assms have "q \<noteq> p" by simp
  with FinishDelete show ?thesis
    by (simp add: delete_payload_def heap_call_finish_other count_Finish_call_finish_other)
next
  case (MonitorWait evt q)
  with assms have "q \<noteq> p" by simp
  with MonitorWait show ?thesis
    by (simp add: delete_payload_def heap_call_finish_other count_Finish_call_finish_other)
       (simp add: pyopencl_call_guarded_cleanup_def Let_def)
next
  case (PyCallback pyobj)
  then show ?thesis
    by (simp add: py_deref_def py_call_def)
qed

lemma untouched_fold:
  "\<forall>(func, status) \<in> set fs. payload_of func \<noteq> p \<Longrightarrow>
   heap (fold (\<lambda>(func, status). run_closure drv func status) fs s) p = heap s p
   \<and> count_list (trace (fold (\<lambda>(func, status). run_closure drv func status) fs s)) (Finish p)
       = count_list (trace s) (Finish p)"
proof (induction fs arbitrary: s)
  case Nil
  then show ?case by simp
next
  case (Cons a fs)
  obtain func status where a: "a = (func, status)"
    by (cases a)
  with Cons.prems have "payload_of func \<noteq> p"
    and rest: "\<forall>(func, status) \<in> set fs. payload_of func \<noteq> p"
    by simp_all
  from untouched_run_closure [OF this(1), of drv status s] Cons.IH [OF rest] a
  show ?case by simp
qed

lemma untouched_drain:
  "\<forall>(func, status) \<in> set (pending s). payload_of func \<noteq> p \<Longrightarrow>
   heap (drain drv s) p = heap s p
   \<and> count_list (trace (drain drv s)) (Finish p) = count_list (trace s) (Finish p)"
  using untouched_fold [of "pending s" p drv "s\<lparr>registered := [], threads := []\<rparr>"]
  by (simp add: drain_def)

subsection \<open>A refused registration\<close>

text \<open>
  C7. Release of a live, unfinished payload on the callback path when the driver answers
  the registration with a failure: \<open>release_private()\<close> returns normally; the trace
  grows by the failed native call and one warning on \<open>std::cerr\<close> that holds the
  driver's status; the payload stays on the heap, unfinished, its \<open>finish()\<close> is not
  entered and it is not deleted; no callback is registered and no thread is started. When
  the handle was the only holder of the payload, it is still on the heap, not finalized
  and not deleted, after every closure has run: it leaks.
\<close>

theorem release_private_registration_failure:
  assumes "m_p this \<noteq> nullptr" and "heap s (m_p this) = Some obj" and "\<not> m_finished obj"
    and "0x1010 \<le> PYOPENCL_CL_VERSION cfg" and "support_cb cfg"
    and "status_of drv (trace s)
           (ClSetEventCallback (data this) CL_COMPLETE (FinishDelete (m_p this))) = st"
    and "st \<noteq> CL_SUCCESS"
  shows "release_private cfg drv this s
           = s\<lparr>trace := trace s @
                 [Cl (ClSetEventCallback (data this) CL_COMPLETE (FinishDelete (m_p this))) st,
                  Cerr [Text cleanup_warning, Endl, What (Clerror ''clSetEventCallback'' st),
                        Text '' failed with code '', Code st, Endl]]\<rparr>
       \<and> heap (release_private cfg drv this s) (m_p this) = Some obj
       \<and> registered (release_private cfg drv this s) = registered s
       \<and> threads (release_private cfg drv this s) = threads s
       \<and> ub (release_private cfg drv this s) = ub s
       \<and> count_list (trace (release_private cfg drv this s)) (Finish (m_p this))
           = count_list (trace s) (Finish (m_p this))
       \<and> count_list (trace (release_private cfg drv this s)) (Delete (m_p this))
           = count_list (trace s) (Delete (m_p this))
       \<and> ((\<forall>(func, status) \<in> set (pending s). payload_of func \<noteq> m_p this) \<longrightarrow>
            heap (drain drv (release_private cfg drv this s)) (m_p this) = Some obj
            \<and> count_list (trace (drain drv (release_private cfg drv this s))) (Finish (m_p this))
                = count_list (trace s) (Finish (m_p this))
            \<and> count_list (trace (drain drv (release_private cfg drv this s))) (Delete (m_p this))
                = count_list (trace s) (Delete (m_p this)))"
proof -
  let ?p = "m_p this"
  let ?r = "release_private cfg drv this s"
  have r: "?r = s\<lparr>trace := trace s @
                 [Cl (ClSetEventCallback (data this) CL_COMPLETE (FinishDelete ?p)) st,
                  Cerr [Text cleanup_warning, Endl, What (Clerror ''clSetEventCallback'' st),
                        Text '' failed with code '', Code st, Endl]]\<rparr>"
    using assms by (simp add: release_private_callback_fail)
  have now: "heap ?r ?p = Some obj \<and> registered ?r = registered s \<and> threads ?r = threads s
           \<and> ub ?r = ub s
           \<and> count_list (trace ?r) (Finish ?p) = count_list (trace s) (Finish ?p)
           \<and> count_list (trace ?r) (Delete ?p) = count_list (trace s) (Delete ?p)"
    unfolding r using assms(2) by simp
  have later: "heap (drain drv ?r) ?p = Some obj
             \<and> count_list (trace (drain drv ?r)) (Finish ?p) = count_list (trace s) (Finish ?p)
             \<and> count_list (trace (drain drv ?r)) (Delete ?p) = count_list (trace s) (Delete ?p)"
    if own: "\<forall>(func, status) \<in> set (pending s). payload_of func \<noteq> ?p"
  proof -
    from now have pend: "pending ?r = pending s"
      by (simp add: pending_def)
    with own have own_r: "\<forall>(func, status) \<in> set (pending ?r). payload_of func \<noteq> ?p"
      by simp
    from own have "filter (\<lambda>(func, status). payload_of func = ?p) (pending s) = []"
      by (rule filter_pending_none)
    with pend count_Delete_drain [OF assms(1), of drv ?r]
    have "count_list (trace (drain drv ?r)) (Delete ?p) = count_list (trace ?r) (Delete ?p)"
      by simp
    with untouched_drain [OF own_r, of drv] now show ?thesis
      by simp
  qed
  from r now later show ?thesis
    by blast
qed

theorem release_private_registration_failure_witness:
  "m_p \<lparr>data = 7, m_p = 1\<rparr> \<noteq> nullptr
   \<and> heap world_plain (m_p \<lparr>data = 7, m_p = 1\<rparr>) = Some (EventPrivate False)
   \<and> \<not> m_finished (EventPrivate False)
   \<and> 0x1010 \<le> PYOPENCL_CL_VERSION cfg_cb \<and> support_cb cfg_cb
   \<and> CL_INVALID_VALUE \<noteq> CL_SUCCESS
   \<and> pending world_plain = []
   \<and> release_private cfg_cb (drv_const CL_INVALID_VALUE) \<lparr>data = 7, m_p = 1\<rparr> world_plain
       = world_plain\<lparr>trace :=
           [Cl (ClSetEventCallback 7 CL_COMPLETE (FinishDelete 1)) CL_INVALID_VALUE,
            Cerr [Text cleanup_warning, Endl, What (Clerror ''clSetEventCallback'' CL_INVALID_VALUE),
                  Text '' failed with code '', Code CL_INVALID_VALUE, Endl]]\<rparr>
   \<and> heap (drain (drv_const CL_INVALID_VALUE)
         (release_private cfg_cb (drv_const CL_INVALID_VALUE) \<lparr>data = 7, m_p = 1\<rparr> world_plain)) 1
       = Some (EventPrivate False)"
proof -
  let ?e = "\<lparr>data = 7, m_p = 1\<rparr> :: event"
  let ?d = "drv_const CL_INVALID_VALUE"
  have a: "m_p ?e \<noteq> nullptr"
    by (simp add: nullptr_def)
  have b: "heap world_plain (m_p ?e) = Some (EventPrivate False)"
    by (simp add: world_plain_def world0_def)
  have c: "\<not> m_finished (EventPrivate False)"
    by simp
  have d: "0x1010 \<le> PYOPENCL_CL_VERSION cfg_cb" and e: "support_cb cfg_cb"
    by (simp_all add: cfg_cb_def)
  have f: "status_of ?d (trace world_plain)
             (ClSetEventCallback (data ?e) CL_COMPLETE (FinishDelete (m_p ?e))) = CL_INVALID_VALUE"
    by (simp add: drv_const_def)
  have g: "pending world_plain = []"
    by (simp add: pending_def world_plain_def world0_def)
  then have own: "\<forall>(func, status) \<in> set (pending world_plain). payload_of func \<noteq> m_p ?e"
    by simp
  note t = release_private_registration_failure [OF a b c d e f CL_INVALID_VALUE_not_success]
  from t have "release_private cfg_cb ?d ?e world_plain
       = world_plain\<lparr>trace := trace world_plain @
           [Cl (ClSetEventCallback (data ?e) CL_COMPLETE (FinishDelete (m_p ?e))) CL_INVALID_VALUE,
            Cerr [Text cleanup_warning, Endl, What (Clerror ''clSetEventCallback'' CL_INVALID_VALUE),
                  Text '' failed with code '', Code CL_INVALID_VALUE, Endl]]\<rparr>"
    by blast
  then have r: "release_private cfg_cb ?d ?e world_plain
       = world_plain\<lparr>trace :=
           [Cl (ClSetEventCallback 7 CL_COMPLETE (FinishDelete 1)) CL_INVALID_VALUE,
            Cerr [Text cleanup_warning, Endl, What (Clerror ''clSetEventCallback'' CL_INVALID_VALUE),
                  Text '' failed with code '', Code CL_INVALID_VALUE, Endl]]\<rparr>"
    by (simp add: world_plain_def world0_def)
  from t own have "heap (drain ?d (release_private cfg_cb ?d ?e world_plain)) (m_p ?e)
       = Some (EventPrivate False)"
    by blast
  then have l: "heap (drain ?d (release_private cfg_cb ?d ?e world_plain)) 1
       = Some (EventPrivate False)"
    by simp
  from a b c d e g r l CL_INVALID_VALUE_not_success show ?thesis
    by blast
qed

subsection \<open>The dispatch\<close>



section \<open>Callbacks registered through the C wrapper\<close>

text \<open>
  C9. \<open>event__set_callback\<close> takes one reference on the callback object before the
  native registration. When the driver refuses the registration, the reference is released
  right away, by the handler: the count is back at its old value, nothing is registered.
  When the driver accepts it, the count is one higher and the registered closure is the
  only holder of that reference; a run of the closure calls the object with the status
  and then releases the reference, which brings the count back to its old value. On
  either path the trace shows one \<open>py::ref\<close> and one \<open>py::deref\<close>.
\<close>

theorem event__set_callback_reference:
  "(status_of drv (trace s @ [PyRef pyobj])
        (ClSetEventCallback (data evt) ty (PyCallback pyobj)) \<noteq> CL_SUCCESS \<longrightarrow>
      event__set_callback drv evt ty pyobj s
        = (None,
           s\<lparr>trace := trace s @
               [PyRef pyobj,
                Cl (ClSetEventCallback (data evt) ty (PyCallback pyobj))
                   (status_of drv (trace s @ [PyRef pyobj])
                      (ClSetEventCallback (data evt) ty (PyCallback pyobj))),
                PyDeref pyobj]\<rparr>))
   \<and> (status_of drv (trace s @ [PyRef pyobj])
        (ClSetEventCallback (data evt) ty (PyCallback pyobj)) = CL_SUCCESS \<longrightarrow>
      event__set_callback drv evt ty pyobj s
        = (None,
           s\<lparr>py_refcnt := (py_refcnt s)(pyobj := py_refcnt s pyobj + 1),
             registered := registered s @ [(data evt, ty, PyCallback pyobj)],
             trace := trace s @
               [PyRef pyobj,
                Cl (ClSetEventCallback (data evt) ty (PyCallback pyobj)) CL_SUCCESS]\<rparr>)
      \<and> run_closure drv (PyCallback pyobj) status (snd (event__set_callback drv evt ty pyobj s))
        = s\<lparr>registered := registered s @ [(data evt, ty, PyCallback pyobj)],
            trace := trace s @
               [PyRef pyobj,
                Cl (ClSetEventCallback (data evt) ty (PyCallback pyobj)) CL_SUCCESS,
                PyCall pyobj status, PyDeref pyobj]\<rparr>)"
  by (simp add: event__set_callback_def py_ref_def py_deref_def py_call_def set_callback_def
      pyopencl_call_guarded_def c_handle_error_def Let_def)

theorem event__set_callback_reference_witness:
  "event__set_callback (drv_const CL_INVALID_VALUE) \<lparr>data = 7, m_p = 0\<rparr> CL_COMPLETE 5 world0
     = (None, world0\<lparr>trace := [PyRef 5,
          Cl (ClSetEventCallback 7 CL_COMPLETE (PyCallback 5)) CL_INVALID_VALUE, PyDeref 5]\<rparr>)
   \<and> py_refcnt (snd (event__set_callback drv_ok \<lparr>data = 7, m_p = 0\<rparr> CL_COMPLETE 5 world0)) 5 = 2
   \<and> py_refcnt (run_closure drv_ok (PyCallback 5) CL_COMPLETE
        (snd (event__set_callback drv_ok \<lparr>data = 7, m_p = 0\<rparr> CL_COMPLETE 5 world0))) 5 = 1"
proof -
  let ?e = "\<lparr>data = 7, m_p = 0\<rparr> :: event"
  have f: "status_of (drv_const CL_INVALID_VALUE) (trace world0 @ [PyRef 5])
        (ClSetEventCallback (data ?e) CL_COMPLETE (PyCallback 5)) \<noteq> CL_SUCCESS"
    by (simp add: drv_const_def CL_INVALID_VALUE_not_success)
  have k: "status_of drv_ok (trace world0 @ [PyRef 5])
        (ClSetEventCallback (data ?e) CL_COMPLETE (PyCallback 5)) = CL_SUCCESS"
    by (simp add: drv_ok_def drv_const_def)
  from event__set_callback_reference [of "drv_const CL_INVALID_VALUE" world0 5 ?e CL_COMPLETE
      CL_COMPLETE] f
  have "event__set_callback (drv_const CL_INVALID_VALUE) ?e CL_COMPLETE 5 world0
     = (None, world0\<lparr>trace := trace world0 @ [PyRef 5,
          Cl (ClSetEventCallback (data ?e) CL_COMPLETE (PyCallback 5))
             (status_of (drv_const CL_INVALID_VALUE) (trace world0 @ [PyRef 5])
                (ClSetEventCallback (data ?e) CL_COMPLETE (PyCallback 5))),
          PyDeref 5]\<rparr>)"
    by blast
  then have 1: "event__set_callback (drv_const CL_INVALID_VALUE) ?e CL_COMPLETE 5 world0
     = (None, world0\<lparr>trace := [PyRef 5,
          Cl (ClSetEventCallback 7 CL_COMPLETE (PyCallback 5)) CL_INVALID_VALUE, PyDeref 5]\<rparr>)"
    by (simp add: drv_const_def world0_def)
  from event__set_callback_reference [of drv_ok world0 5 ?e CL_COMPLETE CL_COMPLETE] k
  have a: "event__set_callback drv_ok ?e CL_COMPLETE 5 world0
        = (None,
           world0\<lparr>py_refcnt := (py_refcnt world0)(5 := py_refcnt world0 5 + 1),
             registered := registered world0 @ [(data ?e, CL_COMPLETE, PyCallback 5)],
             trace := trace world0 @
               [PyRef 5,
                Cl (ClSetEventCallback (data ?e) CL_COMPLETE (PyCallback 5)) CL_SUCCESS]\<rparr>)"
    and b: "run_closure drv_ok (PyCallback 5) CL_COMPLETE
              (snd (event__set_callback drv_ok ?e CL_COMPLETE 5 world0))
        = world0\<lparr>registered := registered world0 @ [(data ?e, CL_COMPLETE, PyCallback 5)],
            trace := trace world0 @
               [PyRef 5,
                Cl (ClSetEventCallback (data ?e) CL_COMPLETE (PyCallback 5)) CL_SUCCESS,
                PyCall 5 CL_COMPLETE, PyDeref 5]\<rparr>"
    by blast+
  have 2: "py_refcnt (snd (event__set_callback drv_ok ?e CL_COMPLETE 5 world0)) 5 = 2"
    unfolding a by (simp add: world0_def)
  have 3: "py_refcnt (run_closure drv_ok (PyCallback 5) CL_COMPLETE
        (snd (event__set_callback drv_ok ?e CL_COMPLETE 5 world0))) 5 = 1"
    unfolding b by (simp add: world0_def)
  from 1 2 3 show ?thesis
    by blast
qed

section \<open>Waiting for a set of events\<close>

text \<open>
  C8, as amended. \<open>wait_for_events\<close> has no case of its own for an empty set: it makes
  the one native call \<open>clWaitForEvents\<close> with the zero handles and returns what the
  driver's answer gives: no error when the answer is success, and otherwise the error that
  carries that status.
\<close>

theorem wait_for_events_empty:
  "wait_for_events drv [] s
     = (if status_of drv (trace s) (ClWaitForEvents []) = CL_SUCCESS then None
        else Some (Clerror ''clWaitForEvents'' (status_of drv (trace s) (ClWaitForEvents []))),
        s\<lparr>trace := trace s @ [Cl (ClWaitForEvents [])
                                  (status_of drv (trace s) (ClWaitForEvents []))]\<rparr>)"
  by (simp add: wait_for_events_def buf_from_class_def pyopencl_call_guarded_def
      c_handle_error_def Let_def)

theorem wait_for_events_empty_witness:
  "wait_for_events drv_ok [] world0
     = (None, world0\<lparr>trace := [Cl (ClWaitForEvents []) CL_SUCCESS]\<rparr>)"
  using wait_for_events_empty [of drv_ok world0]
  by (simp add: drv_ok_def drv_const_def world0_def)

text \<open>
  C8, as stated, fails: with a driver that answers a wait on zero events with
  \<open>CL_INVALID_VALUE\<close> (the answer the OpenCL interface prescribes for it), the call on
  the empty set reaches the driver and returns that error.
\<close>

theorem wait_for_events_empty_counterexample:
  "wait_for_events (drv_const CL_INVALID_VALUE) [] world0
     = (Some (Clerror ''clWaitForEvents'' CL_INVALID_VALUE),
        world0\<lparr>trace := [Cl (ClWaitForEvents []) CL_INVALID_VALUE]\<rparr>)"
  by (simp add: wait_for_events_def buf_from_class_def pyopencl_call_guarded_def
      c_handle_error_def Let_def drv_const_def world0_def CL_INVALID_VALUE_not_success)

section \<open>The ward of a nanny event\<close>

lemma call_finish_keeps_ward:
  "py_refcnt (call_finish p s) = py_refcnt s
   \<and> nanny_event_private_get_ward p (call_finish p s) = nanny_event_private_get_ward p s"
proof (cases "heap s p")
  case None
  then show ?thesis
    by (simp add: call_finish_def nanny_event_private_get_ward_def)
next
  case (Some obj)
  show ?thesis
  proof (cases "m_finished obj")
    case True
    with Some show ?thesis by (simp add: call_finish_finished)
  next
    case False
    with Some show ?thesis
      by (cases obj) (simp_all add: call_finish_unfinished nanny_event_private_get_ward_def)
  qed
qed

lemma finished_releases_ward:
  assumes "heap s p = Some (NannyEventPrivate f ward)"
  shows "nanny_event_private_get_ward p (finished p s) = Some nullptr
       \<and> py_refcnt (finished p s) ward = py_refcnt s ward - 1"
  using assms by (simp add: finished_def py_deref_def nanny_event_private_get_ward_def)

lemma nanny_waited_eq:
  "wait drv_ok nanny_handle nanny_made
     = (Inr (),
        world0\<lparr>heap := [1 \<mapsto> NannyEventPrivate True 5], brk := 1,
               py_refcnt := (\<lambda>_. 1)(5 := 2),
               trace := [PyRef 5, Cl (ClWaitForEvents [7]) CL_SUCCESS, Finish 1]\<rparr>)"
  by (simp add: nanny_made_def nanny_made_eq)
     (simp add: wait_def pyopencl_call_guarded_def drv_ok_def drv_const_def nanny_handle_def
        nullptr_def call_finish_def exchange_def event_private_finish_def world0_def)

lemma nanny_dropped_eq:
  "nanny_dropped
     = world0\<lparr>heap := Map.empty, brk := 1, py_refcnt := (\<lambda>_. 1)(5 := 2),
         trace := [PyRef 5, Cl (ClSetEventCallback 7 CL_COMPLETE (FinishDelete 1)) CL_SUCCESS,
                   Cl (ClReleaseEvent 7) CL_SUCCESS, Finish 1, Delete 1]\<rparr>"
  by (simp add: nanny_dropped_def nanny_made_def nanny_made_eq)
     (simp add: event_dtor_def release_private_def is_finished_def set_callback_def
        pyopencl_call_guarded_def pyopencl_call_guarded_cleanup_def drain_def pending_def
        drv_ok_def drv_const_def nanny_handle_def cfg_cb_def nullptr_def call_finish_def
        exchange_def event_private_finish_def delete_payload_def world0_def)

text \<open>
  C2, on the code. A nanny event is made for ward 5, whose reference count is 1, with the
  completion flag clear: the count goes to 2 and \<open>get_ward()\<close> gives 5. Then
  \<open>wait()\<close> returns: the payload is finished and its \<open>finish()\<close> was entered, yet
  \<open>get_ward()\<close> still gives 5 and the count is still 2. Likewise, when the handle is
  destroyed without a wait and the registered callback runs, the payload is finalized and
  deleted while the count stays at 2 and no \<open>py::deref\<close> is ever made.
\<close>

theorem nanny_ward_never_released:
  "fst (nanny_event_new drv_ok False 7 False 5 world0) = Inr nanny_handle
   \<and> py_refcnt world0 5 = 1
   \<and> py_refcnt nanny_made 5 = 2
   \<and> get_ward nanny_handle nanny_made = Some 5
   \<and> fst (wait drv_ok nanny_handle nanny_made) = Inr ()
   \<and> is_finished (m_p nanny_handle) nanny_waited = Some True
   \<and> trace nanny_waited = [PyRef 5, Cl (ClWaitForEvents [7]) CL_SUCCESS, Finish 1]
   \<and> get_ward nanny_handle nanny_waited = Some 5
   \<and> py_refcnt nanny_waited 5 = 2
   \<and> heap nanny_dropped 1 = None
   \<and> trace nanny_dropped
       = [PyRef 5, Cl (ClSetEventCallback 7 CL_COMPLETE (FinishDelete 1)) CL_SUCCESS,
          Cl (ClReleaseEvent 7) CL_SUCCESS, Finish 1, Delete 1]
   \<and> py_refcnt nanny_dropped 5 = 2"
proof -
  have 1: "py_refcnt world0 5 = 1"
    by (simp add: world0_def)
  have 2: "py_refcnt nanny_made 5 = 2 \<and> get_ward nanny_handle nanny_made = Some 5"
    by (simp add: nanny_made_def nanny_made_eq get_ward_def nanny_event_private_get_ward_def
        nanny_handle_def nullptr_def)
  have w: "nanny_waited
     = world0\<lparr>heap := [1 \<mapsto> NannyEventPrivate True 5], brk := 1,
               py_refcnt := (\<lambda>_. 1)(5 := 2),
               trace := [PyRef 5, Cl (ClWaitForEvents [7]) CL_SUCCESS, Finish 1]\<rparr>"
    by (simp add: nanny_waited_def nanny_waited_eq)
  have 3: "is_finished (m_p nanny_handle) nanny_waited = Some True
         \<and> trace nanny_waited = [PyRef 5, Cl (ClWaitForEvents [7]) CL_SUCCESS, Finish 1]
         \<and> get_ward nanny_handle nanny_waited = Some 5
         \<and> py_refcnt nanny_waited 5 = 2"
    unfolding w
    by (simp add: get_ward_def is_finished_def nanny_event_private_get_ward_def
        nanny_handle_def nullptr_def)
  have 4: "heap nanny_dropped 1 = None \<and> py_refcnt nanny_dropped 5 = 2
         \<and> trace nanny_dropped
             = [PyRef 5, Cl (ClSetEventCallback 7 CL_COMPLETE (FinishDelete 1)) CL_SUCCESS,
                Cl (ClReleaseEvent 7) CL_SUCCESS, Finish 1, Delete 1]"
    by (simp add: nanny_dropped_eq)
  from 1 2 3 4 show ?thesis
    by (simp add: nanny_made_eq nanny_waited_eq)
qed

subsection \<open>The flag of a new payload\<close>

text \<open>
  No constructor sets \<open>m_finished\<close>. Where a payload starts with the flag set, it counts
  as finished from the start: \<open>call_finish()\<close> on it never enters \<open>finish()\<close>,
  whatever the ward and the world.
\<close>

lemma nanny_event_private_new_flag_set:
  assumes "nanny_event_private_new True ward s = (p, s1)"
  shows "heap s1 p = Some (NannyEventPrivate True ward) \<and> call_finish p s1 = s1"
proof -
  from assms have "heap s1 p = Some (NannyEventPrivate True ward)"
    by (auto simp: nanny_event_private_new_def py_ref_def Let_def)
  then show ?thesis
    by (simp add: call_finish_finished)
qed

end
